theory Spec2Isabelle
  imports Main
begin

section \<open>JavaScript values used by the page script\<close>

text \<open>
  The script \<^verbatim>\<open>Frontend/script.js\<close> works on a loaded HTML document: the root element
  (\<^verbatim>\<open>document.documentElement\<close>) and \<^verbatim>\<open>document.body\<close> exist, and
  \<^verbatim>\<open>localStorage\<close> is available. Every other element the script looks up may be absent;
  an absent element is \<open>None\<close>.

  Strings are byte lists; the two icon glyphs are their UTF-8 encodings as they stand in the
  source file.
\<close>

definition sun_glyph :: string where
  "sun_glyph = [CHR 0xE2, CHR 0x98, CHR 0x80, CHR 0xEF, CHR 0xB8, CHR 0x8F]"

definition moon_glyph :: string where
  "moon_glyph = [CHR 0xF0, CHR 0x9F, CHR 0x8C, CHR 0x99]"

text \<open>
  \<^verbatim>\<open>v || d\<close> on a value that is \<^verbatim>\<open>null\<close> or a string: \<^verbatim>\<open>null\<close> and the empty string
  are falsy, every other string is truthy.
\<close>

definition js_or :: "string option \<Rightarrow> string \<Rightarrow> string" where
  "js_or v d = (case v of None \<Rightarrow> d | Some x \<Rightarrow> (if x = [] then d else x))"

section \<open>Theme: document attribute, stored preference, icon\<close>

text \<open>
  \<open>data_theme\<close> is the \<^verbatim>\<open>data-theme\<close> attribute of the root element (\<open>None\<close> when the
  attribute is not set), \<open>stored_theme\<close> the value of the \<^verbatim>\<open>localStorage\<close> key
  \<^verbatim>\<open>'theme'\<close>, and \<open>theme_icon\<close> the text content of the first \<^verbatim>\<open>.theme-icon\<close>
  element (\<open>None\<close> when the page has none).
\<close>

record theme_dom =
  data_theme :: "string option"
  stored_theme :: "string option"
  theme_icon :: "string option"

definition setTheme :: "string \<Rightarrow> theme_dom \<Rightarrow> theme_dom" where
  "setTheme t s = s\<lparr>data_theme := Some t\<rparr>"

definition saveTheme :: "string \<Rightarrow> theme_dom \<Rightarrow> theme_dom" where
  "saveTheme t s = s\<lparr>stored_theme := Some t\<rparr>"

definition updateIcon :: "string \<Rightarrow> theme_dom \<Rightarrow> theme_dom" where
  "updateIcon t s =
     (case theme_icon s of
        None \<Rightarrow> s
      | Some _ \<Rightarrow> s\<lparr>theme_icon := Some (if t = ''dark'' then sun_glyph else moon_glyph)\<rparr>)"

text \<open>\<^verbatim>\<open>ThemeManager.init\<close> (lines 24 to 29).\<close>

definition ThemeManager_init :: "theme_dom \<Rightarrow> theme_dom" where
  "ThemeManager_init s =
     (let savedTheme = js_or (stored_theme s) ''light''
      in updateIcon savedTheme (setTheme savedTheme s))"

text \<open>\<^verbatim>\<open>ThemeManager.toggle\<close> (lines 34 to 41).\<close>

definition ThemeManager_toggle :: "theme_dom \<Rightarrow> theme_dom" where
  "ThemeManager_toggle s =
     (let currentTheme = js_or (data_theme s) ''light'';
          newTheme = (if currentTheme = ''dark'' then ''light'' else ''dark'')
      in updateIcon newTheme (saveTheme newTheme (setTheme newTheme s)))"

text \<open>
  The body of \<^verbatim>\<open>window.toggleTheme\<close> (lines 216 to 226), after the event has been
  dealt with; the function's effect on the event is \<open>stop_event\<close> below.
\<close>

definition toggleTheme_dom :: "theme_dom \<Rightarrow> theme_dom" where
  "toggleTheme_dom s =
     (let currentTheme = js_or (data_theme s) ''light'';
          newTheme = (if currentTheme = ''dark'' then ''light'' else ''dark'');
          s1 = s\<lparr>data_theme := Some newTheme\<rparr>;
          s2 = s1\<lparr>stored_theme := Some newTheme\<rparr>
      in (case theme_icon s2 of
            None \<Rightarrow> s2
          | Some _ \<Rightarrow>
              s2\<lparr>theme_icon := Some (if newTheme = ''dark'' then sun_glyph else moon_glyph)\<rparr>))"

text \<open>\<^verbatim>\<open>initializeTheme\<close> (lines 297 to 306).\<close>

definition initializeTheme :: "theme_dom \<Rightarrow> theme_dom" where
  "initializeTheme s =
     (let savedTheme = js_or (stored_theme s) ''light'';
          s1 = s\<lparr>data_theme := Some savedTheme\<rparr>
      in (case theme_icon s1 of
            None \<Rightarrow> s1
          | Some _ \<Rightarrow>
              s1\<lparr>theme_icon := Some (if savedTheme = ''dark'' then sun_glyph else moon_glyph)\<rparr>))"

section \<open>Numbers and strings\<close>

text \<open>
  The window's vertical scroll offset is a non-negative integer. A template literal renders
  such a number in decimal, which is what \<open>digits10\<close> computes (JavaScript switches to
  exponent notation only from \<open>10 ^ 21\<close> on, far beyond any offset a browser reports).
\<close>

definition digit_char :: "nat \<Rightarrow> char" where
  "digit_char d = char_of (48 + d)"

fun digits10 :: "nat \<Rightarrow> string" where
  "digits10 n = (if n < 10 then [digit_char n] else digits10 (n div 10) @ [digit_char (n mod 10)])"

declare digits10.simps [simp del]

text \<open>
  \<^verbatim>\<open>parseInt(string)\<close> with no radix: leading white space is skipped, one sign is read, a
  prefix \<^verbatim>\<open>0x\<close> or \<^verbatim>\<open>0X\<close> selects radix 16 (radix 10 otherwise), and the longest run of
  digits of that radix is the value; with no digit the result is \<^verbatim>\<open>NaN\<close>, here \<open>None\<close>.
  Only the ASCII white space characters are recognised.
\<close>

definition is_js_space :: "char \<Rightarrow> bool" where
  "is_js_space c = (c \<in> set [CHR 0x20, CHR 0x09, CHR 0x0A, CHR 0x0B, CHR 0x0C, CHR 0x0D])"

definition digit_value :: "char \<Rightarrow> nat option" where
  "digit_value c =
     (let k = (of_char c :: nat)
      in if 48 \<le> k \<and> k \<le> 57 then Some (k - 48)
         else if 97 \<le> k \<and> k \<le> 122 then Some (k - 87)
         else if 65 \<le> k \<and> k \<le> 90 then Some (k - 55)
         else None)"

fun scan_digits :: "nat \<Rightarrow> string \<Rightarrow> nat list" where
  "scan_digits R [] = []"
| "scan_digits R (c # cs) =
     (case digit_value c of
        None \<Rightarrow> []
      | Some d \<Rightarrow> (if d < R then d # scan_digits R cs else []))"

definition radix_value :: "nat \<Rightarrow> nat list \<Rightarrow> nat" where
  "radix_value R ds = foldl (\<lambda>a d. a * R + d) 0 ds"

definition read_sign :: "string \<Rightarrow> int \<times> string" where
  "read_sign s =
     (case s of
        [] \<Rightarrow> (1, s)
      | c # r \<Rightarrow> (if c = CHR ''-'' then (- 1, r) else if c = CHR ''+'' then (1, r) else (1, s)))"

definition read_radix :: "string \<Rightarrow> nat \<times> string" where
  "read_radix s =
     (case s of
        a # b # r \<Rightarrow>
          (if a = CHR ''0'' \<and> (b = CHR ''x'' \<or> b = CHR ''X'') then (16, r) else (10, s))
      | _ \<Rightarrow> (10, s))"

definition parseInt :: "string \<Rightarrow> int option" where
  "parseInt s =
     (let (sign, s1) = read_sign (dropWhile is_js_space s);
          (R, s2) = read_radix s1;
          Z = scan_digits R s2
      in if Z = [] then None else Some (sign * int (radix_value R Z)))"

section \<open>Menu: overlay, icon, body scroll lock\<close>

text \<open>
  \<open>overlay_open\<close> and \<open>icon_open\<close> tell whether the first \<^verbatim>\<open>.menu-overlay\<close> and the first
  \<^verbatim>\<open>.hamburger-icon\<close> element carry the class \<^verbatim>\<open>open\<close> (\<open>None\<close>: the page has no such
  element). The \<open>body_\<close> fields are the class \<^verbatim>\<open>menu-open\<close> and the inline style
  properties of \<^verbatim>\<open>document.body\<close>, kept as the script writes them. \<open>scrollY\<close> is
  \<^verbatim>\<open>window.scrollY\<close>.
\<close>

record menu_dom =
  overlay_open :: "bool option"
  icon_open :: "bool option"
  body_menu_open :: bool
  body_overflow :: string
  body_position :: string
  body_width :: string
  body_height :: string
  body_top :: string
  scrollY :: nat

text \<open>
  \<^verbatim>\<open>window.scrollTo(0, y)\<close>: \<^verbatim>\<open>NaN\<close> counts as 0 and a negative offset is clamped to 0.
  The requested offset is taken to lie within the page.
\<close>

definition scrollTo :: "int option \<Rightarrow> menu_dom \<Rightarrow> menu_dom" where
  "scrollTo y s = s\<lparr>scrollY := (case y of None \<Rightarrow> 0 | Some v \<Rightarrow> nat v)\<rparr>"

text \<open>The template literal \<^verbatim>\<open>`-${scrollY}px`\<close>.\<close>

definition top_of_scroll :: "nat \<Rightarrow> string" where
  "top_of_scroll y = ''-'' @ digits10 y @ ''px''"

text \<open>\<^verbatim>\<open>MenuManager.open\<close> (lines 109 to 124).\<close>

definition MenuManager_open :: "menu_dom \<Rightarrow> menu_dom" where
  "MenuManager_open s =
     (if overlay_open s = None \<or> icon_open s = None then s
      else
        (let y = scrollY s
         in s\<lparr>overlay_open := Some True, icon_open := Some True, body_menu_open := True,
               body_overflow := ''hidden'', body_position := ''fixed'', body_width := ''100%'',
               body_top := top_of_scroll y\<rparr>))"

text \<open>\<^verbatim>\<open>MenuManager.close\<close> (lines 129 to 147).\<close>

definition MenuManager_close :: "menu_dom \<Rightarrow> menu_dom" where
  "MenuManager_close s =
     (let y = body_top s;
          s1 = s\<lparr>overlay_open := map_option (\<lambda>_. False) (overlay_open s),
                  icon_open := map_option (\<lambda>_. False) (icon_open s),
                  body_menu_open := False,
                  body_overflow := [], body_position := [], body_width := [],
                  body_height := [], body_top := []\<rparr>
      in if y \<noteq> [] then scrollTo (map_option (\<lambda>v. v * (- 1)) (parseInt (js_or (Some y) ''0''))) s1
         else s1)"

text \<open>\<^verbatim>\<open>MenuManager.toggle\<close> (lines 91 to 104) and \<^verbatim>\<open>MenuManager.isOpen\<close> (lines 153 to 156).\<close>

definition MenuManager_toggle :: "menu_dom \<Rightarrow> menu_dom" where
  "MenuManager_toggle s =
     (case overlay_open s of
        None \<Rightarrow> s
      | Some isOpen \<Rightarrow>
          (if icon_open s = None then s
           else if isOpen then MenuManager_close s else MenuManager_open s))"

definition MenuManager_isOpen :: "menu_dom \<Rightarrow> bool" where
  "MenuManager_isOpen s = (case overlay_open s of None \<Rightarrow> False | Some b \<Rightarrow> b)"

text \<open>
  The body of \<^verbatim>\<open>window.toggleMenu\<close> (lines 238 to 265), after the event has been dealt
  with.
\<close>

definition toggleMenu_dom :: "menu_dom \<Rightarrow> menu_dom" where
  "toggleMenu_dom s =
     (case overlay_open s of
        None \<Rightarrow> s
      | Some isOpen \<Rightarrow>
          (if icon_open s = None then s
           else if isOpen then
             s\<lparr>overlay_open := Some False, icon_open := Some False, body_menu_open := False,
               body_overflow := [], body_position := [], body_width := [], body_height := []\<rparr>
           else
             (let y = scrollY s
              in s\<lparr>overlay_open := Some True, icon_open := Some True, body_menu_open := True,
                    body_overflow := ''hidden'', body_position := ''fixed'',
                    body_width := ''100%'', body_top := top_of_scroll y\<rparr>)))"

text \<open>\<^verbatim>\<open>window.handleMenuLink\<close> (lines 271 to 294); the event is not touched.\<close>

definition handleMenuLink :: "menu_dom \<Rightarrow> menu_dom" where
  "handleMenuLink s =
     (let s1 = s\<lparr>overlay_open := map_option (\<lambda>_. False) (overlay_open s),
                  icon_open := map_option (\<lambda>_. False) (icon_open s),
                  body_menu_open := False\<rparr>;
          y = body_top s1;
          s2 = s1\<lparr>body_overflow := [], body_position := [], body_width := [],
                   body_height := [], body_top := []\<rparr>
      in if y \<noteq> [] then scrollTo (map_option (\<lambda>v. v * (- 1)) (parseInt (js_or (Some y) ''0''))) s2
         else s2)"

section \<open>Reveal on scroll\<close>

text \<open>
  Elements are numbered. \<open>scroll_animate\<close> lists the elements of class
  \<^verbatim>\<open>scroll-animate\<close> in document order and \<open>hero_elements\<close> those of them inside
  \<^verbatim>\<open>#profile\<close>; \<open>animate\<close> is the set of elements that carry the class \<^verbatim>\<open>animate\<close>.
  \<open>has_IntersectionObserver\<close> is the test \<^verbatim>\<open>'IntersectionObserver' in window\<close>,
  \<open>observer\<close> tells whether the manager holds an observer, \<open>observed\<close> is the set of
  elements under observation, and \<open>timeouts\<close> are the pending \<^verbatim>\<open>setTimeout\<close> callbacks with
  their delays in milliseconds.
\<close>

datatype timeout = Hero_start "nat list" | Hero_element nat

record reveal_dom =
  scroll_animate :: "nat list"
  hero_elements :: "nat list"
  animate :: "nat set"
  has_IntersectionObserver :: bool
  observer :: bool
  observed :: "nat set"
  timeouts :: "(nat \<times> timeout) list"

definition add_animate :: "nat \<Rightarrow> reveal_dom \<Rightarrow> reveal_dom" where
  "add_animate el r = r\<lparr>animate := insert el (animate r)\<rparr>"

definition observe :: "nat \<Rightarrow> reveal_dom \<Rightarrow> reveal_dom" where
  "observe el r = r\<lparr>observed := insert el (observed r)\<rparr>"

definition unobserve :: "nat \<Rightarrow> reveal_dom \<Rightarrow> reveal_dom" where
  "unobserve el r = r\<lparr>observed := observed r - {el}\<rparr>"

definition setTimeout :: "timeout \<Rightarrow> nat \<Rightarrow> reveal_dom \<Rightarrow> reveal_dom" where
  "setTimeout f delay r = r\<lparr>timeouts := timeouts r @ [(delay, f)]\<rparr>"

text \<open>
  The constructor of \<^verbatim>\<open>ScrollAnimationManager\<close> (lines 477 to 483): the new manager holds no
  observer. The options \<^verbatim>\<open>threshold\<close> and \<^verbatim>\<open>rootMargin\<close> decide which entries the browser
  delivers and are not part of the state.
\<close>

definition ScrollAnimationManager_new :: "reveal_dom \<Rightarrow> reveal_dom" where
  "ScrollAnimationManager_new r = r\<lparr>observer := False\<rparr>"

text \<open>\<^verbatim>\<open>ScrollAnimationManager.init\<close> (lines 485 to 523).\<close>

definition ScrollAnimationManager_init :: "reveal_dom \<Rightarrow> reveal_dom" where
  "ScrollAnimationManager_init r =
     (if \<not> has_IntersectionObserver r then fold add_animate (scroll_animate r) r
      else
        (let r1 = r\<lparr>observer := True\<rparr>;
             r2 = fold observe (scroll_animate r1) r1;
             heroElements = hero_elements r2
         in if length heroElements > 0 then setTimeout (Hero_start heroElements) 100 r2 else r2))"

text \<open>
  The observer's callback (lines 496 to 504), run on the entries the browser delivers: each
  entry is a target with its \<^verbatim>\<open>isIntersecting\<close> flag.
\<close>

definition observer_entry :: "nat \<times> bool \<Rightarrow> reveal_dom \<Rightarrow> reveal_dom" where
  "observer_entry entry r =
     (if snd entry then unobserve (fst entry) (add_animate (fst entry) r) else r)"

definition observer_callback :: "(nat \<times> bool) list \<Rightarrow> reveal_dom \<Rightarrow> reveal_dom" where
  "observer_callback entries r = fold observer_entry entries r"

text \<open>The two timer callbacks of lines 515 to 521.\<close>

fun run_timeout :: "timeout \<Rightarrow> reveal_dom \<Rightarrow> reveal_dom" where
  "run_timeout (Hero_start els) r =
     fold (\<lambda>(index, el). setTimeout (Hero_element el) (index * 100)) (enumerate 0 els) r"
| "run_timeout (Hero_element el) r = add_animate el r"

text \<open>The browser fires the pending timeout at position \<open>i\<close> and discards it.\<close>

definition fire_timeout :: "nat \<Rightarrow> reveal_dom \<Rightarrow> reveal_dom" where
  "fire_timeout i r =
     (if i < length (timeouts r)
      then run_timeout (snd (timeouts r ! i))
             (r\<lparr>timeouts := take i (timeouts r) @ drop (Suc i) (timeouts r)\<rparr>)
      else r)"

section \<open>Events and listeners\<close>

text \<open>
  The nodes that the script attaches listeners to, and any other element of the page
  (\<open>Element\<close>). \<open>MenuLink i\<close> is the \<open>i\<close>-th anchor matched by \<^verbatim>\<open>.menu-links a\<close>.
\<close>

datatype target =
  Document | ThemeToggle | HamburgerIcon | MenuOverlay | MenuLinks | MenuLink nat | Element nat

datatype etype = Click | Keydown | Mousemove | Mouseenter | Mouseleave | Mousedown | Mouseup

record event =
  etype :: etype
  target :: target
  key :: string
  defaultPrevented :: bool
  propagationStopped :: bool

definition preventDefault :: "event \<Rightarrow> event" where
  "preventDefault e = e\<lparr>defaultPrevented := True\<rparr>"

definition stopPropagation :: "event \<Rightarrow> event" where
  "stopPropagation e = e\<lparr>propagationStopped := True\<rparr>"

text \<open>\<^verbatim>\<open>if (e) { e.preventDefault(); e.stopPropagation(); }\<close> of both global toggles.\<close>

definition stop_event :: "event \<Rightarrow> event" where
  "stop_event e = stopPropagation (preventDefault e)"

definition toggleTheme :: "event option \<Rightarrow> theme_dom \<Rightarrow> event option \<times> theme_dom" where
  "toggleTheme e s = (map_option stop_event e, toggleTheme_dom s)"

definition toggleMenu :: "event option \<Rightarrow> menu_dom \<Rightarrow> event option \<times> menu_dom" where
  "toggleMenu e s = (map_option stop_event e, toggleMenu_dom s)"

text \<open>
  The listeners the script registers, named by who registers them: \<open>App_\<close> in
  \<^verbatim>\<open>PortfolioApp.attachEventListeners\<close>, \<open>Setup_\<close> in \<^verbatim>\<open>setupThemeButton\<close> and
  \<^verbatim>\<open>setupMenuButton\<close>, \<open>Cursor_\<close> in \<^verbatim>\<open>LuxuryCursor.init\<close>.
\<close>

datatype handler =
  App_theme_click | App_hamburger_click | App_overlay_click | App_menulinks_click
| Setup_theme_click | Setup_hamburger_click | Setup_overlay_click | Setup_keydown
| Setup_link_click
| Cursor_mousemove | Cursor_mouseenter | Cursor_mouseleave | Cursor_mousedown | Cursor_mouseup

fun handler_etype :: "handler \<Rightarrow> etype" where
  "handler_etype Setup_keydown = Keydown"
| "handler_etype Cursor_mousemove = Mousemove"
| "handler_etype Cursor_mouseenter = Mouseenter"
| "handler_etype Cursor_mouseleave = Mouseleave"
| "handler_etype Cursor_mousedown = Mousedown"
| "handler_etype Cursor_mouseup = Mouseup"
| "handler_etype _ = Click"

section \<open>Custom cursor\<close>

text \<open>
  \<open>custom_cursor\<close> and \<open>cursor_dot\<close> are the class lists of \<^verbatim>\<open>#custom-cursor\<close> and
  \<^verbatim>\<open>#cursor-dot\<close> (\<open>None\<close>: absent). \<open>touch_device\<close> is the touch probe of line 378 and
  \<open>interactive\<close> the nodes matched by the selector of lines 410 to 412. \<open>animationFrame\<close>
  tells whether a frame callback is scheduled. The pointer and follower coordinates are
  IEEE 754 doubles and are not part of this state.
\<close>

record cursor_dom =
  custom_cursor :: "string set option"
  cursor_dot :: "string set option"
  touch_device :: bool
  interactive :: "target list"
  isHovering :: bool
  animationFrame :: bool

definition classList_add :: "string \<Rightarrow> string set option \<Rightarrow> string set option" where
  "classList_add c el = map_option (insert c) el"

definition classList_remove :: "string \<Rightarrow> string set option \<Rightarrow> string set option" where
  "classList_remove c el = map_option (\<lambda>cs. cs - {c}) el"

section \<open>The page and its wiring\<close>

text \<open>
  \<open>has_theme_toggle\<close> and \<open>has_menu_links\<close> tell whether \<^verbatim>\<open>#theme-toggle\<close> and
  \<^verbatim>\<open>.menu-links\<close> exist, \<open>menu_anchors\<close> is the number of anchors matched by
  \<^verbatim>\<open>.menu-links a\<close>. \<open>listeners\<close> gives, for each node, the registered listeners in
  registration order. The last three fields are the properties \<^verbatim>\<open>portfolioApp\<close>,
  \<^verbatim>\<open>luxuryCursor\<close> and \<^verbatim>\<open>scrollAnimationManager\<close> of \<^verbatim>\<open>window\<close> (set or not).
\<close>

record page =
  theme :: theme_dom
  menu :: menu_dom
  reveal :: reveal_dom
  cursor :: cursor_dom
  has_theme_toggle :: bool
  has_menu_links :: bool
  menu_anchors :: nat
  listeners :: "target \<Rightarrow> handler list"
  portfolioApp :: bool
  luxuryCursor :: bool
  scrollAnimationManager :: bool

definition addEventListener :: "target \<Rightarrow> handler \<Rightarrow> page \<Rightarrow> page" where
  "addEventListener t h p = p\<lparr>listeners := (listeners p)(t := listeners p t @ [h])\<rparr>"

text \<open>\<^verbatim>\<open>PortfolioApp.attachEventListeners\<close> (lines 180 to 204).\<close>

definition attachEventListeners :: "page \<Rightarrow> page" where
  "attachEventListeners p =
     (let p1 = (if has_theme_toggle p then addEventListener ThemeToggle App_theme_click p else p);
          p2 = (if icon_open (menu p1) \<noteq> None
                then addEventListener HamburgerIcon App_hamburger_click p1 else p1);
          p3 = (if overlay_open (menu p2) \<noteq> None
                then addEventListener MenuOverlay App_overlay_click p2 else p2)
      in if has_menu_links p3 then addEventListener MenuLinks App_menulinks_click p3 else p3)"

text \<open>\<^verbatim>\<open>PortfolioApp.init\<close> (lines 172 to 175).\<close>

definition PortfolioApp_init :: "page \<Rightarrow> page" where
  "PortfolioApp_init p = attachEventListeners (p\<lparr>theme := ThemeManager_init (theme p)\<rparr>)"

text \<open>
  \<^verbatim>\<open>setupThemeButton\<close> (lines 309 to 323): the button is replaced by a deep clone, which
  has the button's attributes and content and no listener; the new listener goes on the
  clone.
\<close>

definition setupThemeButton :: "page \<Rightarrow> page" where
  "setupThemeButton p =
     (if has_theme_toggle p
      then addEventListener ThemeToggle Setup_theme_click
             (p\<lparr>listeners := (listeners p)(ThemeToggle := [])\<rparr>)
      else p)"

text \<open>\<^verbatim>\<open>setupMenuButton\<close> (lines 326 to 368).\<close>

definition setupMenuButton :: "page \<Rightarrow> page" where
  "setupMenuButton p =
     (let p1 = (if icon_open (menu p) \<noteq> None
                then addEventListener HamburgerIcon Setup_hamburger_click p else p);
          p2 = (if overlay_open (menu p1) \<noteq> None
                then addEventListener MenuOverlay Setup_overlay_click p1 else p1);
          p3 = addEventListener Document Setup_keydown p2
      in fold (\<lambda>i. addEventListener (MenuLink i) Setup_link_click) [0..<menu_anchors p3] p3)"

text \<open>
  The constructor of \<^verbatim>\<open>LuxuryCursor\<close> with \<^verbatim>\<open>init\<close> (lines 375 to 441). The first call of
  \<^verbatim>\<open>animate\<close> leaves a frame callback scheduled.
\<close>

definition LuxuryCursor_init :: "page \<Rightarrow> page" where
  "LuxuryCursor_init p =
     (if touch_device (cursor p) then p
      else
        (let c = cursor p;
             p1 = p\<lparr>cursor := c\<lparr>custom_cursor := classList_add ''active'' (custom_cursor c),
                                 cursor_dot := classList_add ''active'' (cursor_dot c)\<rparr>\<rparr>;
             p2 = addEventListener Document Cursor_mousemove p1;
             p3 = fold (\<lambda>el q. addEventListener el Cursor_mouseleave
                                  (addEventListener el Cursor_mouseenter q))
                       (interactive (cursor p2)) p2;
             p4 = addEventListener Document Cursor_mousedown p3;
             p5 = addEventListener Document Cursor_mouseup p4
         in p5\<lparr>cursor := (cursor p5)\<lparr>animationFrame := True\<rparr>\<rparr>))"

definition LuxuryCursor_new :: "page \<Rightarrow> page" where
  "LuxuryCursor_new p =
     (let p0 = p\<lparr>cursor := (cursor p)\<lparr>isHovering := False, animationFrame := False\<rparr>\<rparr>
      in if \<not> touch_device (cursor p0) \<and> custom_cursor (cursor p0) \<noteq> None
            \<and> cursor_dot (cursor p0) \<noteq> None
         then LuxuryCursor_init p0 else p0)"

text \<open>\<^verbatim>\<open>initializeApp\<close> (lines 527 to 548).\<close>

definition initializeApp :: "page \<Rightarrow> page" where
  "initializeApp p =
     (let p1 = p\<lparr>theme := initializeTheme (theme p)\<rparr>;
          p2 = setupThemeButton p1;
          p3 = setupMenuButton p2;
          p4 = (if \<not> portfolioApp p3 then PortfolioApp_init (p3\<lparr>portfolioApp := True\<rparr>) else p3);
          p5 = (if \<not> luxuryCursor p4 then LuxuryCursor_new (p4\<lparr>luxuryCursor := True\<rparr>) else p4)
      in if \<not> scrollAnimationManager p5
         then (p5\<lparr>scrollAnimationManager := True\<rparr>)
                \<lparr>reveal := ScrollAnimationManager_init (ScrollAnimationManager_new (reveal p5))\<rparr>
         else p5)"

text \<open>What each listener does when it is called with an event.\<close>

fun run_handler :: "handler \<Rightarrow> event \<Rightarrow> page \<Rightarrow> event \<times> page" where
  "run_handler App_theme_click e p = (e, p\<lparr>theme := ThemeManager_toggle (theme p)\<rparr>)"
| "run_handler App_hamburger_click e p = (e, p\<lparr>menu := MenuManager_toggle (menu p)\<rparr>)"
| "run_handler App_overlay_click e p = (e, p\<lparr>menu := MenuManager_close (menu p)\<rparr>)"
| "run_handler App_menulinks_click e p = (stopPropagation e, p)"
| "run_handler Setup_theme_click e p =
     (stop_event (stop_event e), p\<lparr>theme := toggleTheme_dom (theme p)\<rparr>)"
| "run_handler Setup_hamburger_click e p =
     (stop_event (stop_event e), p\<lparr>menu := toggleMenu_dom (menu p)\<rparr>)"
| "run_handler Setup_overlay_click e p =
     (if target e = MenuOverlay
      then (stop_event (stop_event e), p\<lparr>menu := toggleMenu_dom (menu p)\<rparr>)
      else (e, p))"
| "run_handler Setup_keydown e p =
     (if key e = ''Escape''
      then (if overlay_open (menu p) = Some True
            then (stop_event e, p\<lparr>menu := toggleMenu_dom (menu p)\<rparr>)
            else (e, p))
      else (e, p))"
| "run_handler Setup_link_click e p = (e, p\<lparr>menu := handleMenuLink (menu p)\<rparr>)"
| "run_handler Cursor_mousemove e p = (e, p)"
| "run_handler Cursor_mouseenter e p =
     (e, p\<lparr>cursor := (cursor p)\<lparr>isHovering := True,
            custom_cursor := classList_add ''hover'' (custom_cursor (cursor p)),
            cursor_dot := classList_add ''hover'' (cursor_dot (cursor p))\<rparr>\<rparr>)"
| "run_handler Cursor_mouseleave e p =
     (e, p\<lparr>cursor := (cursor p)\<lparr>isHovering := False,
            custom_cursor := classList_remove ''hover'' (custom_cursor (cursor p)),
            cursor_dot := classList_remove ''hover'' (cursor_dot (cursor p))\<rparr>\<rparr>)"
| "run_handler Cursor_mousedown e p =
     (e, p\<lparr>cursor := (cursor p)\<lparr>
            custom_cursor := classList_add ''click'' (custom_cursor (cursor p)),
            cursor_dot := classList_add ''click'' (cursor_dot (cursor p))\<rparr>\<rparr>)"
| "run_handler Cursor_mouseup e p =
     (e, p\<lparr>cursor := (cursor p)\<lparr>
            custom_cursor := classList_remove ''click'' (custom_cursor (cursor p)),
            cursor_dot := classList_remove ''click'' (cursor_dot (cursor p))\<rparr>\<rparr>)"

text \<open>
  Event dispatch in the bubbling phase, which is where every listener of the script is
  registered: at each node of the path from the target up, the node's listeners for the
  event's type run in registration order; once one of them has stopped propagation, the
  remaining listeners of that node still run and the nodes further up are skipped.
\<close>

fun run_listeners :: "handler list \<Rightarrow> event \<Rightarrow> page \<Rightarrow> event \<times> page" where
  "run_listeners [] e p = (e, p)"
| "run_listeners (h # hs) e p =
     (if handler_etype h = etype e
      then (case run_handler h e p of (e1, p1) \<Rightarrow> run_listeners hs e1 p1)
      else run_listeners hs e p)"

fun propagate :: "target list \<Rightarrow> event \<Rightarrow> page \<Rightarrow> event \<times> page" where
  "propagate [] e p = (e, p)"
| "propagate (n # ns) e p =
     (case run_listeners (listeners p n) e p of
        (e1, p1) \<Rightarrow> (if propagationStopped e1 then (e1, p1) else propagate ns e1 p1))"

text \<open>A fresh event of type \<open>ty\<close> at target \<open>t\<close>, whose ancestors are \<open>ancestors\<close>, innermost first.\<close>

definition dispatch :: "etype \<Rightarrow> string \<Rightarrow> target \<Rightarrow> target list \<Rightarrow> page \<Rightarrow> event \<times> page" where
  "dispatch ty k t ancestors p =
     propagate (t # ancestors)
       \<lparr>etype = ty, target = t, key = k, defaultPrevented = False, propagationStopped = False\<rparr> p"

text \<open>The listeners of a node for one type of event.\<close>

definition listeners_for :: "etype \<Rightarrow> page \<Rightarrow> target \<Rightarrow> handler list" where
  "listeners_for ty p t = filter (\<lambda>h. handler_etype h = ty) (listeners p t)"

section \<open>Runs of the system\<close>

text \<open>
  A theme toggle is a call of \<^verbatim>\<open>ThemeManager.toggle\<close> or of \<^verbatim>\<open>window.toggleTheme\<close>, the
  latter with or without an event.
\<close>

datatype theme_toggle_path = By_ThemeManager | By_toggleTheme "event option"

fun theme_toggle_by :: "theme_toggle_path \<Rightarrow> theme_dom \<Rightarrow> theme_dom" where
  "theme_toggle_by By_ThemeManager s = ThemeManager_toggle s"
| "theme_toggle_by (By_toggleTheme e) s = snd (toggleTheme e s)"

definition theme_toggles :: "theme_toggle_path list \<Rightarrow> theme_dom \<Rightarrow> theme_dom" where
  "theme_toggles ps s = fold theme_toggle_by ps s"

text \<open>The page with the menu closed, nothing written to the body, scrolled to offset \<open>y\<close>.\<close>

definition closed_menu :: "nat \<Rightarrow> menu_dom" where
  "closed_menu y =
     \<lparr>overlay_open = Some False, icon_open = Some False, body_menu_open = False,
      body_overflow = [], body_position = [], body_width = [], body_height = [],
      body_top = [], scrollY = y\<rparr>"

text \<open>
  What the browser does with the window while the menu is open: a body with
  \<^verbatim>\<open>position: fixed\<close> leaves the document nothing to scroll, so the window is at offset 0
  (the body's negative top keeps the page where it was on screen). This is the reason why
  the open paths record the offset and the close paths scroll back to it.
\<close>

definition scroll_locked :: "menu_dom \<Rightarrow> menu_dom" where
  "scroll_locked s = (if body_position s = ''fixed'' then s\<lparr>scrollY := 0\<rparr> else s)"

text \<open>
  Everything that can happen to a page: the browser dispatches an event, delivers
  intersection entries to the observer, fires a pending timeout or runs the scheduled frame
  callback; the initializer runs; an inline handler calls one of the global functions; the
  user scrolls the window. The frame callback \<^verbatim>\<open>LuxuryCursor.animate\<close> writes the two
  follower coordinates and their transforms and schedules itself again, so it leaves the
  state as modelled here unchanged.
\<close>

datatype op =
  Fire etype string target "target list"
| Intersect "(nat \<times> bool) list"
| Timeout nat
| Frame
| Load
| Call_toggleTheme
| Call_toggleMenu
| Call_handleMenuLink
| Scroll nat

fun step :: "op \<Rightarrow> page \<Rightarrow> page" where
  "step (Fire ty k t ancestors) p = snd (dispatch ty k t ancestors p)"
| "step (Intersect entries) p =
     (if observer (reveal p) then p\<lparr>reveal := observer_callback entries (reveal p)\<rparr> else p)"
| "step (Timeout i) p = p\<lparr>reveal := fire_timeout i (reveal p)\<rparr>"
| "step Frame p = p"
| "step Load p = initializeApp p"
| "step Call_toggleTheme p = p\<lparr>theme := snd (toggleTheme None (theme p))\<rparr>"
| "step Call_toggleMenu p = p\<lparr>menu := snd (toggleMenu None (menu p))\<rparr>"
| "step Call_handleMenuLink p = p\<lparr>menu := handleMenuLink (menu p)\<rparr>"
| "step (Scroll y) p = p\<lparr>menu := (menu p)\<lparr>scrollY := y\<rparr>\<rparr>"

definition run :: "op list \<Rightarrow> page \<Rightarrow> page" where
  "run ops p = fold step ops p"

text \<open>
  A page as it is when the script starts: no listener registered and none of the three
  \<^verbatim>\<open>window\<close> properties set.
\<close>

definition fresh :: "page \<Rightarrow> bool" where
  "fresh p = (listeners p = (\<lambda>_. []) \<and> \<not> portfolioApp p \<and> \<not> luxuryCursor p
              \<and> \<not> scrollAnimationManager p)"

text \<open>
  A sample page that has every element the script looks for: two menu anchors, three
  elements to reveal of which the first is in the hero section, a pointer device, stored
  theme \<^verbatim>\<open>dark\<close>, scrolled to offset \<open>y\<close>.
\<close>

definition sample_page :: "nat \<Rightarrow> page" where
  "sample_page y =
     \<lparr>theme = \<lparr>data_theme = None, stored_theme = Some ''dark'', theme_icon = Some []\<rparr>,
      menu = closed_menu y,
      reveal = \<lparr>scroll_animate = [0, 1, 2], hero_elements = [0], animate = {},
                has_IntersectionObserver = True, observer = False, observed = {},
                timeouts = []\<rparr>,
      cursor = \<lparr>custom_cursor = Some {}, cursor_dot = Some {}, touch_device = False,
                interactive = [ThemeToggle, HamburgerIcon, MenuLink 0, MenuLink 1],
                isHovering = False, animationFrame = False\<rparr>,
      has_theme_toggle = True, has_menu_links = True, menu_anchors = 2,
      listeners = (\<lambda>_. []),
      portfolioApp = False, luxuryCursor = False, scrollAnimationManager = False\<rparr>"

section \<open>Properties of the theme functions\<close>

lemma glyphs_differ: "sun_glyph \<noteq> moon_glyph"
  by (simp add: sun_glyph_def moon_glyph_def)

lemma toggleTheme_dom_eq: "toggleTheme_dom s = ThemeManager_toggle s"
  by (simp add: toggleTheme_dom_def ThemeManager_toggle_def Let_def updateIcon_def
      saveTheme_def setTheme_def split: option.splits)

lemma initializeTheme_eq: "initializeTheme s = ThemeManager_init s"
  by (simp add: initializeTheme_def ThemeManager_init_def Let_def updateIcon_def
      setTheme_def split: option.splits)

lemma theme_toggle_by_eq: "theme_toggle_by p s = ThemeManager_toggle s"
  by (cases p) (simp_all add: toggleTheme_def toggleTheme_dom_eq)

lemma ThemeManager_toggle_data:
  "data_theme (ThemeManager_toggle s) = Some (if data_theme s = Some ''dark'' then ''light'' else ''dark'')"
  by (simp add: ThemeManager_toggle_def Let_def updateIcon_def saveTheme_def setTheme_def js_or_def
      split: option.splits)

lemma ThemeManager_toggle_stored:
  "stored_theme (ThemeManager_toggle s) = data_theme (ThemeManager_toggle s)"
  by (simp add: ThemeManager_toggle_def Let_def updateIcon_def saveTheme_def setTheme_def
      split: option.splits)

lemma ThemeManager_toggle_icon:
  "theme_icon (ThemeManager_toggle s) =
     map_option (\<lambda>_. if data_theme s = Some ''dark'' then moon_glyph else sun_glyph) (theme_icon s)"
  by (simp add: ThemeManager_toggle_def Let_def updateIcon_def saveTheme_def setTheme_def js_or_def
      split: option.splits)

lemma theme_toggles_snoc: "theme_toggles (ps @ [p]) s = theme_toggle_by p (theme_toggles ps s)"
  by (simp add: theme_toggles_def)

lemma theme_toggles_parity:
  "data_theme s = Some ''light'' \<Longrightarrow>
   data_theme (theme_toggles ps s) = Some (if even (length ps) then ''light'' else ''dark'')"
proof (induction ps rule: rev_induct)
  case Nil
  then show ?case by (simp add: theme_toggles_def)
next
  case (snoc p ps)
  then show ?case
    by (simp add: theme_toggles_snoc theme_toggle_by_eq ThemeManager_toggle_data)
qed

text \<open>
  Claim C1. Starting from the default state (attribute \<^verbatim>\<open>light\<close>, nothing stored), after
  any sequence of toggles, each through \<^verbatim>\<open>ThemeManager.toggle\<close> or \<^verbatim>\<open>window.toggleTheme\<close>,
  the attribute is \<^verbatim>\<open>light\<close> when the number of toggles is even and \<^verbatim>\<open>dark\<close> when it is
  odd; right after every toggle the stored value equals the attribute; and a toggle, from
  any state, sets the attribute to \<^verbatim>\<open>light\<close> when it was \<^verbatim>\<open>dark\<close> and to \<^verbatim>\<open>dark\<close> otherwise,
  and stores that value.
\<close>

theorem theme_toggle_sequence:
  "data_theme (theme_toggles ps \<lparr>data_theme = Some ''light'', stored_theme = None, theme_icon = ic\<rparr>)
     = Some (if even (length ps) then ''light'' else ''dark'')
   \<and> stored_theme (theme_toggles (ps @ [p]) \<lparr>data_theme = Some ''light'', stored_theme = None, theme_icon = ic\<rparr>)
     = data_theme (theme_toggles (ps @ [p]) \<lparr>data_theme = Some ''light'', stored_theme = None, theme_icon = ic\<rparr>)
   \<and> data_theme (theme_toggle_by p s) = Some (if data_theme s = Some ''dark'' then ''light'' else ''dark'')
   \<and> stored_theme (theme_toggle_by p s) = data_theme (theme_toggle_by p s)"
  by (simp add: theme_toggles_parity theme_toggles_snoc theme_toggle_by_eq
      ThemeManager_toggle_data ThemeManager_toggle_stored)

text \<open>
  Claim C3, as stated, fails: a stored value that is neither \<^verbatim>\<open>light\<close> nor \<^verbatim>\<open>dark\<close> is not
  replaced by the default. With \<^verbatim>\<open>blue\<close> stored, \<^verbatim>\<open>init\<close> sets the attribute to \<^verbatim>\<open>blue\<close>.
\<close>

theorem init_unrecognised_value:
  "data_theme (ThemeManager_init \<lparr>data_theme = None, stored_theme = Some ''blue'', theme_icon = Some []\<rparr>)
     = Some ''blue''
   \<and> data_theme (ThemeManager_init \<lparr>data_theme = None, stored_theme = Some ''blue'', theme_icon = Some []\<rparr>)
     \<noteq> Some ''light''"
  by (simp add: ThemeManager_init_def Let_def updateIcon_def setTheme_def js_or_def)

text \<open>
  Claim C3, amended. \<^verbatim>\<open>init\<close> applies the stored value as it is whenever it is a non-empty
  string, and the default \<^verbatim>\<open>light\<close> when nothing or the empty string is stored. The icon,
  when the page has one, becomes the sun glyph exactly when the stored value is \<^verbatim>\<open>dark\<close> and
  the moon glyph otherwise; the stored value is left as it is. So a stored \<^verbatim>\<open>dark\<close> gives
  attribute \<^verbatim>\<open>dark\<close> with the sun, and no stored value gives \<^verbatim>\<open>light\<close> with the moon.
  \<^verbatim>\<open>initializeTheme\<close> does the same, and the two glyphs differ.
\<close>

theorem init_applies_stored_value:
  "data_theme (ThemeManager_init s)
     = Some (case stored_theme s of None \<Rightarrow> ''light'' | Some v \<Rightarrow> (if v = [] then ''light'' else v))
   \<and> theme_icon (ThemeManager_init s)
     = map_option (\<lambda>_. if stored_theme s = Some ''dark'' then sun_glyph else moon_glyph) (theme_icon s)
   \<and> stored_theme (ThemeManager_init s) = stored_theme s
   \<and> initializeTheme s = ThemeManager_init s
   \<and> sun_glyph \<noteq> moon_glyph"
  by (simp add: ThemeManager_init_def Let_def updateIcon_def setTheme_def js_or_def
      initializeTheme_def glyphs_differ split: option.splits)

section \<open>Properties of number rendering and \<open>parseInt\<close>\<close>

lemma digit_value_digit_char: "d < 10 \<Longrightarrow> digit_value (digit_char d) = Some d"
  by (simp add: digit_value_def digit_char_def Let_def)

lemma scan_digits_digits10:
  "scan_digits 10 (digits10 n @ r) = map (\<lambda>c. of_char c - 48) (digits10 n) @ scan_digits 10 r"
proof (induction n arbitrary: r rule: digits10.induct)
  case (1 n)
  show ?case
  proof (cases "n < 10")
    case True
    then show ?thesis
      by (subst (1 2) digits10.simps) (simp add: digit_value_digit_char, simp add: digit_char_def)
  next
    case False
    have "digits10 n = digits10 (n div 10) @ [digit_char (n mod 10)]"
      by (subst digits10.simps) (simp add: False)
    then show ?thesis
      using 1 [OF False, of "digit_char (n mod 10) # r"]
      by (simp add: digit_value_digit_char, simp add: digit_char_def)
  qed
qed

lemma radix_value_digits10: "radix_value 10 (map (\<lambda>c. of_char c - 48) (digits10 n)) = n"
proof (induction n rule: digits10.induct)
  case (1 n)
  show ?case
  proof (cases "n < 10")
    case True
    then show ?thesis
      by (subst digits10.simps) (simp add: radix_value_def digit_char_def)
  next
    case False
    have "digits10 n = digits10 (n div 10) @ [digit_char (n mod 10)]"
      by (subst digits10.simps) (simp add: False)
    then show ?thesis
      using 1 [OF False] by (simp add: radix_value_def digit_char_def)
  qed
qed

lemma digits10_not_Nil: "digits10 n \<noteq> []"
  by (subst digits10.simps) simp

lemma digits10_chars: "set (digits10 n) \<subseteq> digit_char ` {..<10}"
proof (induction n rule: digits10.induct)
  case (1 n)
  show ?case
  proof (cases "n < 10")
    case True
    then show ?thesis by (subst digits10.simps) simp
  next
    case False
    have "digits10 n = digits10 (n div 10) @ [digit_char (n mod 10)]"
      by (subst digits10.simps) (simp add: False)
    with 1 [OF False] show ?thesis by simp
  qed
qed

lemma digit_char_plain:
  "d < 10 \<Longrightarrow> digit_char d \<noteq> CHR ''x'' \<and> digit_char d \<noteq> CHR ''X''"
proof -
  assume "d < 10"
  then have "of_char (digit_char d) = 48 + d"
    by (simp add: digit_char_def)
  then show ?thesis using \<open>d < 10\<close> by auto
qed

lemma read_radix_digits:
  assumes "xs \<noteq> []" and "set xs \<subseteq> digit_char ` {..<10}"
  shows "read_radix (xs @ ''px'') = (10, xs @ ''px'')"
proof (cases xs)
  case Nil
  with assms show ?thesis by simp
next
  case (Cons a ys)
  show ?thesis
  proof (cases ys)
    case Nil
    with Cons show ?thesis by (simp add: read_radix_def)
  next
    case (Cons b zs)
    with \<open>xs = a # ys\<close> assms(2) obtain d where "d < 10" "b = digit_char d" by auto
    with digit_char_plain [of d] Cons \<open>xs = a # ys\<close> show ?thesis
      by (simp add: read_radix_def)
  qed
qed

lemma parseInt_top_of_scroll: "parseInt (top_of_scroll n) = Some (- int n)"
proof -
  have 1: "dropWhile is_js_space (top_of_scroll n) = top_of_scroll n"
    by (simp add: top_of_scroll_def is_js_space_def)
  have 2: "read_sign (top_of_scroll n) = (- 1, digits10 n @ ''px'')"
    by (simp add: top_of_scroll_def read_sign_def)
  have 3: "read_radix (digits10 n @ ''px'') = (10, digits10 n @ ''px'')"
    by (rule read_radix_digits [OF digits10_not_Nil digits10_chars])
  have 4: "scan_digits 10 (digits10 n @ ''px'') = map (\<lambda>c. of_char c - 48) (digits10 n)"
    by (simp add: scan_digits_digits10 digit_value_def)
  show ?thesis
    by (simp add: parseInt_def 1 2 3 4 radix_value_digits10 digits10_not_Nil)
qed

lemma top_of_scroll_not_Nil: "top_of_scroll n \<noteq> []"
  by (simp add: top_of_scroll_def)

section \<open>Properties of the menu functions\<close>

lemma handleMenuLink_eq: "handleMenuLink s = MenuManager_close s"
  by (simp add: handleMenuLink_def MenuManager_close_def Let_def)

lemma toggleMenu_dom_closed_eq:
  "overlay_open s \<noteq> Some True \<Longrightarrow> toggleMenu_dom s = MenuManager_toggle s"
  by (cases "overlay_open s")
     (auto simp: toggleMenu_dom_def MenuManager_toggle_def MenuManager_open_def Let_def)

lemma toggleMenu_dom_open:
  "overlay_open s = Some True \<Longrightarrow> icon_open s \<noteq> None \<Longrightarrow>
   scrollY (toggleMenu_dom s) = scrollY s \<and> body_top (toggleMenu_dom s) = body_top s
   \<and> overlay_open (toggleMenu_dom s) = Some False"
  by (simp add: toggleMenu_dom_def)

lemma MenuManager_close_no_offset:
  "body_top s = [] \<Longrightarrow> scrollY (MenuManager_close s) = scrollY s"
  by (simp add: MenuManager_close_def Let_def)

lemma MenuManager_close_top: "body_top (MenuManager_close s) = []"
  by (simp add: MenuManager_close_def Let_def scrollTo_def)

lemma MenuManager_close_recorded:
  "body_top s = top_of_scroll y \<Longrightarrow> scrollY (MenuManager_close s) = y"
  by (simp add: MenuManager_close_def Let_def scrollTo_def js_or_def top_of_scroll_not_Nil
      parseInt_top_of_scroll)

lemma MenuManager_open_top:
  "overlay_open s \<noteq> None \<Longrightarrow> icon_open s \<noteq> None \<Longrightarrow>
   body_top (MenuManager_open s) = top_of_scroll (scrollY s)"
  by (auto simp: MenuManager_open_def Let_def)

lemma open_close_restores:
  "overlay_open s \<noteq> None \<Longrightarrow> icon_open s \<noteq> None \<Longrightarrow>
   scrollY (MenuManager_close ((MenuManager_open s)\<lparr>scrollY := y\<rparr>)) = scrollY s"
  by (simp add: MenuManager_close_recorded MenuManager_open_top)

lemma top_of_scroll_100: "top_of_scroll 100 = ''-100px''"
  by code_simp

text \<open>
  Claim C2 at an input where the code departs from it. The menu is opened at offset 100
  through \<^verbatim>\<open>window.toggleMenu\<close>, and the window is at offset 0 under the scroll lock. Closing
  through \<^verbatim>\<open>window.toggleMenu\<close> leaves the window at 0 and the body's top at \<^verbatim>\<open>-100px\<close>;
  closing through \<^verbatim>\<open>MenuManager.close\<close> scrolls back to 100.
\<close>

theorem toggleMenu_close_leaves_scroll:
  "scrollY (toggleMenu_dom (scroll_locked (toggleMenu_dom (closed_menu 100)))) = 0
   \<and> body_top (toggleMenu_dom (scroll_locked (toggleMenu_dom (closed_menu 100)))) = ''-100px''
   \<and> overlay_open (toggleMenu_dom (scroll_locked (toggleMenu_dom (closed_menu 100)))) = Some False
   \<and> scrollY (MenuManager_close (scroll_locked (toggleMenu_dom (closed_menu 100)))) = 100"
  by (simp add: toggleMenu_dom_def closed_menu_def Let_def top_of_scroll_100 scroll_locked_def
      MenuManager_close_recorded [of _ 100, unfolded top_of_scroll_100])

text \<open>
  Claim C4 at an input where the code departs from it. The menu is opened at offset 100 and
  closed again, both through \<^verbatim>\<open>window.toggleMenu\<close>: the menu is closed and the body's top is
  still \<^verbatim>\<open>-100px\<close>. The user scrolls to 500. \<^verbatim>\<open>MenuManager.close\<close>, called in this closed
  state, scrolls the window to 100.
\<close>

theorem close_after_toggleMenu_scrolls:
  "overlay_open (toggleMenu_dom (toggleMenu_dom (closed_menu 100))) = Some False
   \<and> body_top (toggleMenu_dom (toggleMenu_dom (closed_menu 100))) = ''-100px''
   \<and> scrollY (MenuManager_close ((toggleMenu_dom (toggleMenu_dom (closed_menu 100)))\<lparr>scrollY := 500\<rparr>)) = 100"
  by (simp add: toggleMenu_dom_def closed_menu_def Let_def top_of_scroll_100
      MenuManager_close_recorded [of _ 100, unfolded top_of_scroll_100])

text \<open>
  Claim C5 at an input where the code departs from it. On the menu opened at offset 100,
  with the window at 0 under the scroll lock, \<^verbatim>\<open>MenuManager.toggle\<close> clears the body's top
  and scrolls to 100, while \<^verbatim>\<open>window.toggleMenu\<close> leaves the top at \<^verbatim>\<open>-100px\<close> and the window
  at 0.
\<close>

theorem menu_toggles_differ_on_close:
  "body_top (MenuManager_toggle (scroll_locked (MenuManager_open (closed_menu 100)))) = []
   \<and> scrollY (MenuManager_toggle (scroll_locked (MenuManager_open (closed_menu 100)))) = 100
   \<and> body_top (toggleMenu_dom (scroll_locked (MenuManager_open (closed_menu 100)))) = ''-100px''
   \<and> scrollY (toggleMenu_dom (scroll_locked (MenuManager_open (closed_menu 100)))) = 0"
  by (simp add: toggleMenu_dom_def MenuManager_toggle_def MenuManager_open_def closed_menu_def
      Let_def top_of_scroll_100 MenuManager_close_top scroll_locked_def
      MenuManager_close_recorded [of _ 100, unfolded top_of_scroll_100])

section \<open>Properties of event dispatch\<close>

lemma fold_keeps: "(\<And>x q. g (f x q) = g q) \<Longrightarrow> g (fold f xs p) = g p"
  by (induction xs arbitrary: p) simp_all

lemma addEventListener_fields [simp]:
  "theme (addEventListener t h p) = theme p"
  "menu (addEventListener t h p) = menu p"
  "reveal (addEventListener t h p) = reveal p"
  "cursor (addEventListener t h p) = cursor p"
  "has_theme_toggle (addEventListener t h p) = has_theme_toggle p"
  "has_menu_links (addEventListener t h p) = has_menu_links p"
  "menu_anchors (addEventListener t h p) = menu_anchors p"
  "portfolioApp (addEventListener t h p) = portfolioApp p"
  "luxuryCursor (addEventListener t h p) = luxuryCursor p"
  "scrollAnimationManager (addEventListener t h p) = scrollAnimationManager p"
  by (simp_all add: addEventListener_def)

lemma listeners_addEventListener:
  "listeners (addEventListener t h p) u = (if u = t then listeners p t @ [h] else listeners p u)"
  by (simp add: addEventListener_def)

lemma run_handler_keeps:
  "listeners (snd (run_handler h e p)) = listeners p"
  "reveal (snd (run_handler h e p)) = reveal p"
  "scrollAnimationManager (snd (run_handler h e p)) = scrollAnimationManager p"
  "etype (fst (run_handler h e p)) = etype e"
  "target (fst (run_handler h e p)) = target e"
  by (cases h; simp add: stop_event_def stopPropagation_def preventDefault_def)+

lemma run_handler_stopped:
  "propagationStopped e \<Longrightarrow> propagationStopped (fst (run_handler h e p))"
  by (cases h; simp add: stop_event_def stopPropagation_def preventDefault_def)

lemma run_listeners_keeps:
  "listeners (snd (run_listeners hs e p)) = listeners p
   \<and> reveal (snd (run_listeners hs e p)) = reveal p
   \<and> scrollAnimationManager (snd (run_listeners hs e p)) = scrollAnimationManager p
   \<and> etype (fst (run_listeners hs e p)) = etype e
   \<and> target (fst (run_listeners hs e p)) = target e"
proof (induction hs arbitrary: e p)
  case Nil
  show ?case by simp
next
  case (Cons h hs)
  obtain e1 p1 where r: "run_handler h e p = (e1, p1)" by (cases "run_handler h e p")
  from run_handler_keeps [of h e p] r
  have "listeners p1 = listeners p" "reveal p1 = reveal p"
    "scrollAnimationManager p1 = scrollAnimationManager p" "etype e1 = etype e"
    "target e1 = target e"
    by simp_all
  with Cons [of e1 p1] Cons [of e p] r show ?case by simp
qed

lemma run_listeners_stopped:
  "propagationStopped e \<Longrightarrow> propagationStopped (fst (run_listeners hs e p))"
proof (induction hs arbitrary: e p)
  case Nil
  then show ?case by simp
next
  case (Cons h hs)
  obtain e1 p1 where r: "run_handler h e p = (e1, p1)" by (cases "run_handler h e p")
  with run_handler_stopped [OF Cons.prems, of h p] have "propagationStopped e1" by simp
  with Cons r show ?case by simp
qed

lemma run_listeners_stopper:
  "App_menulinks_click \<in> set hs \<Longrightarrow> etype e = Click \<Longrightarrow>
   propagationStopped (fst (run_listeners hs e p))"
proof (induction hs arbitrary: e p)
  case Nil
  then show ?case by simp
next
  case (Cons h hs)
  obtain e1 p1 where r: "run_handler h e p = (e1, p1)" by (cases "run_handler h e p")
  show ?case
  proof (cases "h = App_menulinks_click")
    case True
    with Cons.prems show ?thesis
      by (simp add: run_listeners_stopped stopPropagation_def)
  next
    case False
    with Cons.prems have in_hs: "App_menulinks_click \<in> set hs" by simp
    from run_handler_keeps(4) [of h e p] r Cons.prems have "etype e1 = Click" by simp
    with Cons.IH [OF in_hs, of e1 p1] Cons.IH [OF in_hs Cons.prems(2), of p] r
    show ?thesis by simp
  qed
qed

lemma propagate_keeps:
  "listeners (snd (propagate ns e p)) = listeners p
   \<and> reveal (snd (propagate ns e p)) = reveal p
   \<and> scrollAnimationManager (snd (propagate ns e p)) = scrollAnimationManager p"
proof (induction ns arbitrary: e p)
  case Nil
  show ?case by simp
next
  case (Cons n ns)
  obtain e1 p1 where r: "run_listeners (listeners p n) e p = (e1, p1)"
    by (cases "run_listeners (listeners p n) e p")
  with run_listeners_keeps [of "listeners p n" e p]
  have "listeners p1 = listeners p" "reveal p1 = reveal p"
    "scrollAnimationManager p1 = scrollAnimationManager p"
    by simp_all
  with Cons [of e1 p1] r show ?case by simp
qed

lemma propagate_contained:
  "App_menulinks_click \<in> set (listeners p MenuLinks) \<Longrightarrow> etype e = Click \<Longrightarrow>
   propagate (pre @ MenuLinks # post) e p = propagate (pre @ [MenuLinks]) e p"
proof (induction pre arbitrary: e p)
  case Nil
  obtain e1 p1 where r: "run_listeners (listeners p MenuLinks) e p = (e1, p1)"
    by (cases "run_listeners (listeners p MenuLinks) e p")
  with run_listeners_stopper [OF Nil, of p] have "propagationStopped e1" by simp
  with r show ?case by simp
next
  case (Cons n pre)
  obtain e1 p1 where r: "run_listeners (listeners p n) e p = (e1, p1)"
    by (cases "run_listeners (listeners p n) e p")
  with run_listeners_keeps [of "listeners p n" e p] Cons.prems
  have "App_menulinks_click \<in> set (listeners p1 MenuLinks)" "etype e1 = Click"
    by simp_all
  from Cons.IH [OF this] r show ?case by simp
qed


section \<open>Properties of the initializer\<close>

lemma run_listeners_filter:
  "run_listeners (filter (\<lambda>h. handler_etype h = etype e) hs) e p = run_listeners hs e p"
proof (induction hs arbitrary: e p)
  case Nil
  show ?case by simp
next
  case (Cons h hs)
  obtain e1 p1 where r: "run_handler h e p = (e1, p1)" by (cases "run_handler h e p")
  with run_handler_keeps(4) [of h e p] have "etype e1 = etype e" by simp
  with Cons [of e1 p1] Cons [of e p] r show ?case by simp
qed

lemma listeners_for_addEventListener:
  "listeners_for ty (addEventListener t h p) u =
     (if u = t \<and> handler_etype h = ty then listeners_for ty p t @ [h] else listeners_for ty p u)"
  by (simp add: listeners_for_def addEventListener_def)

lemma listeners_fold_links_other:
  "\<forall>i. u \<noteq> MenuLink i \<Longrightarrow>
   listeners (fold (\<lambda>i. addEventListener (MenuLink i) h) xs p) u = listeners p u"
  by (induction xs arbitrary: p) (simp_all add: listeners_addEventListener)

lemma listeners_fold_links:
  "listeners (fold (\<lambda>i. addEventListener (MenuLink i) h) [0..<n] p) (MenuLink j) =
     (if j < n then listeners p (MenuLink j) @ [h] else listeners p (MenuLink j))"
  by (induction n) (auto simp: listeners_addEventListener)

lemma fold_links_fields [simp]:
  "theme (fold (\<lambda>i. addEventListener (MenuLink i) h) xs p) = theme p"
  "menu (fold (\<lambda>i. addEventListener (MenuLink i) h) xs p) = menu p"
  "reveal (fold (\<lambda>i. addEventListener (MenuLink i) h) xs p) = reveal p"
  "cursor (fold (\<lambda>i. addEventListener (MenuLink i) h) xs p) = cursor p"
  "has_theme_toggle (fold (\<lambda>i. addEventListener (MenuLink i) h) xs p) = has_theme_toggle p"
  "has_menu_links (fold (\<lambda>i. addEventListener (MenuLink i) h) xs p) = has_menu_links p"
  "menu_anchors (fold (\<lambda>i. addEventListener (MenuLink i) h) xs p) = menu_anchors p"
  "portfolioApp (fold (\<lambda>i. addEventListener (MenuLink i) h) xs p) = portfolioApp p"
  "luxuryCursor (fold (\<lambda>i. addEventListener (MenuLink i) h) xs p) = luxuryCursor p"
  "scrollAnimationManager (fold (\<lambda>i. addEventListener (MenuLink i) h) xs p)
     = scrollAnimationManager p"
  by (rule fold_keeps, simp)+

lemma fold_hover_fields [simp]:
  "theme (fold (\<lambda>el q. addEventListener el h2 (addEventListener el h1 q)) xs p) = theme p"
  "menu (fold (\<lambda>el q. addEventListener el h2 (addEventListener el h1 q)) xs p) = menu p"
  "reveal (fold (\<lambda>el q. addEventListener el h2 (addEventListener el h1 q)) xs p) = reveal p"
  "cursor (fold (\<lambda>el q. addEventListener el h2 (addEventListener el h1 q)) xs p) = cursor p"
  "has_theme_toggle (fold (\<lambda>el q. addEventListener el h2 (addEventListener el h1 q)) xs p)
     = has_theme_toggle p"
  "has_menu_links (fold (\<lambda>el q. addEventListener el h2 (addEventListener el h1 q)) xs p)
     = has_menu_links p"
  "menu_anchors (fold (\<lambda>el q. addEventListener el h2 (addEventListener el h1 q)) xs p)
     = menu_anchors p"
  "portfolioApp (fold (\<lambda>el q. addEventListener el h2 (addEventListener el h1 q)) xs p)
     = portfolioApp p"
  "luxuryCursor (fold (\<lambda>el q. addEventListener el h2 (addEventListener el h1 q)) xs p)
     = luxuryCursor p"
  "scrollAnimationManager (fold (\<lambda>el q. addEventListener el h2 (addEventListener el h1 q)) xs p)
     = scrollAnimationManager p"
  by (rule fold_keeps, simp)+

lemma listeners_for_fold_hover:
  "handler_etype h1 \<noteq> ty \<Longrightarrow> handler_etype h2 \<noteq> ty \<Longrightarrow>
   listeners_for ty (fold (\<lambda>el q. addEventListener el h2 (addEventListener el h1 q)) xs p) u
     = listeners_for ty p u"
  by (rule fold_keeps [where g = "\<lambda>q. listeners_for ty q u"])
     (simp add: listeners_for_addEventListener)

lemma setupThemeButton_fields [simp]:
  "theme (setupThemeButton p) = theme p"
  "menu (setupThemeButton p) = menu p"
  "reveal (setupThemeButton p) = reveal p"
  "cursor (setupThemeButton p) = cursor p"
  "has_theme_toggle (setupThemeButton p) = has_theme_toggle p"
  "has_menu_links (setupThemeButton p) = has_menu_links p"
  "menu_anchors (setupThemeButton p) = menu_anchors p"
  "portfolioApp (setupThemeButton p) = portfolioApp p"
  "luxuryCursor (setupThemeButton p) = luxuryCursor p"
  "scrollAnimationManager (setupThemeButton p) = scrollAnimationManager p"
  by (simp_all add: setupThemeButton_def)

lemma setupMenuButton_fields [simp]:
  "theme (setupMenuButton p) = theme p"
  "menu (setupMenuButton p) = menu p"
  "reveal (setupMenuButton p) = reveal p"
  "cursor (setupMenuButton p) = cursor p"
  "has_theme_toggle (setupMenuButton p) = has_theme_toggle p"
  "has_menu_links (setupMenuButton p) = has_menu_links p"
  "menu_anchors (setupMenuButton p) = menu_anchors p"
  "portfolioApp (setupMenuButton p) = portfolioApp p"
  "luxuryCursor (setupMenuButton p) = luxuryCursor p"
  "scrollAnimationManager (setupMenuButton p) = scrollAnimationManager p"
  by (simp_all add: setupMenuButton_def Let_def)

lemma PortfolioApp_init_fields [simp]:
  "theme (PortfolioApp_init p) = ThemeManager_init (theme p)"
  "menu (PortfolioApp_init p) = menu p"
  "reveal (PortfolioApp_init p) = reveal p"
  "cursor (PortfolioApp_init p) = cursor p"
  "has_theme_toggle (PortfolioApp_init p) = has_theme_toggle p"
  "has_menu_links (PortfolioApp_init p) = has_menu_links p"
  "menu_anchors (PortfolioApp_init p) = menu_anchors p"
  "portfolioApp (PortfolioApp_init p) = portfolioApp p"
  "luxuryCursor (PortfolioApp_init p) = luxuryCursor p"
  "scrollAnimationManager (PortfolioApp_init p) = scrollAnimationManager p"
  by (simp_all add: PortfolioApp_init_def attachEventListeners_def Let_def)

lemma LuxuryCursor_new_fields [simp]:
  "theme (LuxuryCursor_new p) = theme p"
  "menu (LuxuryCursor_new p) = menu p"
  "reveal (LuxuryCursor_new p) = reveal p"
  "has_theme_toggle (LuxuryCursor_new p) = has_theme_toggle p"
  "has_menu_links (LuxuryCursor_new p) = has_menu_links p"
  "menu_anchors (LuxuryCursor_new p) = menu_anchors p"
  "portfolioApp (LuxuryCursor_new p) = portfolioApp p"
  "luxuryCursor (LuxuryCursor_new p) = luxuryCursor p"
  "scrollAnimationManager (LuxuryCursor_new p) = scrollAnimationManager p"
  by (simp_all add: LuxuryCursor_new_def LuxuryCursor_init_def Let_def)

lemma initializeApp_reveal:
  "reveal (initializeApp p) =
     (if scrollAnimationManager p then reveal p
      else ScrollAnimationManager_init (ScrollAnimationManager_new (reveal p)))"
  by (simp add: initializeApp_def Let_def)

lemma initializeApp_flags:
  "scrollAnimationManager (initializeApp p)" "portfolioApp (initializeApp p)"
  "luxuryCursor (initializeApp p)"
  by (simp_all add: initializeApp_def Let_def)

lemma initializeApp_menu: "menu (initializeApp p) = menu p"
  by (simp add: initializeApp_def Let_def)

lemma initializeApp_again:
  "portfolioApp p \<Longrightarrow> luxuryCursor p \<Longrightarrow> scrollAnimationManager p \<Longrightarrow>
   initializeApp p = setupMenuButton (setupThemeButton (p\<lparr>theme := initializeTheme (theme p)\<rparr>))"
  by (simp add: initializeApp_def Let_def)

lemma listeners_setupMenuButton_icon:
  "listeners (setupMenuButton p) HamburgerIcon =
     (if icon_open (menu p) \<noteq> None then listeners p HamburgerIcon @ [Setup_hamburger_click]
      else listeners p HamburgerIcon)"
  by (simp add: setupMenuButton_def Let_def listeners_fold_links_other listeners_addEventListener)

lemma listeners_setupThemeButton:
  "listeners (setupThemeButton p) u =
     (if has_theme_toggle p \<and> u = ThemeToggle then [Setup_theme_click] else listeners p u)"
  by (simp add: setupThemeButton_def listeners_addEventListener)

lemma initializeApp_again_icon:
  "portfolioApp p \<Longrightarrow> luxuryCursor p \<Longrightarrow> scrollAnimationManager p \<Longrightarrow>
   icon_open (menu p) \<noteq> None \<Longrightarrow>
   listeners (initializeApp p) HamburgerIcon = listeners p HamburgerIcon @ [Setup_hamburger_click]"
  by (simp add: initializeApp_again listeners_setupMenuButton_icon listeners_setupThemeButton)

lemma listeners_for_setupThemeButton:
  "listeners_for ty (setupThemeButton p) u =
     (if has_theme_toggle p \<and> u = ThemeToggle
      then (if ty = Click then [Setup_theme_click] else [])
      else listeners_for ty p u)"
  by (simp add: listeners_for_def listeners_setupThemeButton)

lemma listeners_for_fold_links:
  "listeners_for ty (fold (\<lambda>i. addEventListener (MenuLink i) h) [0..<n] p) u =
     (if handler_etype h = ty \<and> (\<exists>j<n. u = MenuLink j) then listeners_for ty p u @ [h]
      else listeners_for ty p u)"
proof (cases "\<exists>j. u = MenuLink j")
  case True
  then obtain j where "u = MenuLink j" ..
  then show ?thesis by (simp add: listeners_for_def listeners_fold_links)
next
  case False
  then show ?thesis by (auto simp: listeners_for_def listeners_fold_links_other)
qed

lemma listeners_for_update [simp]:
  "listeners_for ty (p\<lparr>portfolioApp := b\<rparr>) u = listeners_for ty p u"
  "listeners_for ty (p\<lparr>luxuryCursor := b\<rparr>) u = listeners_for ty p u"
  "listeners_for ty (p\<lparr>scrollAnimationManager := b\<rparr>) u = listeners_for ty p u"
  "listeners_for ty (p\<lparr>reveal := r\<rparr>) u = listeners_for ty p u"
  "listeners_for ty (p\<lparr>theme := th\<rparr>) u = listeners_for ty p u"
  "listeners_for ty (p\<lparr>menu := m\<rparr>) u = listeners_for ty p u"
  "listeners_for ty (p\<lparr>cursor := c\<rparr>) u = listeners_for ty p u"
  by (simp_all add: listeners_for_def)

lemma listeners_for_setupMenuButton:
  "listeners_for Click (setupMenuButton p) u =
     listeners_for Click p u @
       (case u of
          HamburgerIcon \<Rightarrow> (if icon_open (menu p) \<noteq> None then [Setup_hamburger_click] else [])
        | MenuOverlay \<Rightarrow> (if overlay_open (menu p) \<noteq> None then [Setup_overlay_click] else [])
        | MenuLink i \<Rightarrow> (if i < menu_anchors p then [Setup_link_click] else [])
        | _ \<Rightarrow> [])"
  by (cases u)
     (simp_all add: setupMenuButton_def Let_def listeners_for_fold_links
       listeners_for_addEventListener)

lemma listeners_for_attachEventListeners:
  "listeners_for Click (attachEventListeners p) u =
     listeners_for Click p u @
       (case u of
          ThemeToggle \<Rightarrow> (if has_theme_toggle p then [App_theme_click] else [])
        | HamburgerIcon \<Rightarrow> (if icon_open (menu p) \<noteq> None then [App_hamburger_click] else [])
        | MenuOverlay \<Rightarrow> (if overlay_open (menu p) \<noteq> None then [App_overlay_click] else [])
        | MenuLinks \<Rightarrow> (if has_menu_links p then [App_menulinks_click] else [])
        | _ \<Rightarrow> [])"
  by (cases u)
     (simp_all add: attachEventListeners_def Let_def listeners_for_addEventListener)

lemma listeners_for_PortfolioApp_init:
  "listeners_for Click (PortfolioApp_init p) u =
     listeners_for Click p u @
       (case u of
          ThemeToggle \<Rightarrow> (if has_theme_toggle p then [App_theme_click] else [])
        | HamburgerIcon \<Rightarrow> (if icon_open (menu p) \<noteq> None then [App_hamburger_click] else [])
        | MenuOverlay \<Rightarrow> (if overlay_open (menu p) \<noteq> None then [App_overlay_click] else [])
        | MenuLinks \<Rightarrow> (if has_menu_links p then [App_menulinks_click] else [])
        | _ \<Rightarrow> [])"
  by (cases u) (simp_all add: PortfolioApp_init_def listeners_for_attachEventListeners)

lemma listeners_for_LuxuryCursor_new:
  "listeners_for Click (LuxuryCursor_new p) u = listeners_for Click p u"
  by (simp add: LuxuryCursor_new_def LuxuryCursor_init_def Let_def
      listeners_for_addEventListener listeners_for_fold_hover)

lemma click_listeners_first_run:
  "\<not> portfolioApp p \<Longrightarrow>
   listeners_for Click (initializeApp p) u =
     listeners_for Click (setupMenuButton (setupThemeButton p)) u @
       (case u of
          ThemeToggle \<Rightarrow> (if has_theme_toggle p then [App_theme_click] else [])
        | HamburgerIcon \<Rightarrow> (if icon_open (menu p) \<noteq> None then [App_hamburger_click] else [])
        | MenuOverlay \<Rightarrow> (if overlay_open (menu p) \<noteq> None then [App_overlay_click] else [])
        | MenuLinks \<Rightarrow> (if has_menu_links p then [App_menulinks_click] else [])
        | _ \<Rightarrow> [])"
proof -
  let ?p1 = "p\<lparr>theme := initializeTheme (theme p)\<rparr>"
  let ?p3 = "setupMenuButton (setupThemeButton ?p1)"
  let ?p4 = "PortfolioApp_init (?p3\<lparr>portfolioApp := True\<rparr>)"
  let ?p5 = "if \<not> luxuryCursor ?p4 then LuxuryCursor_new (?p4\<lparr>luxuryCursor := True\<rparr>) else ?p4"
  assume np: "\<not> portfolioApp p"
  have a: "\<And>v. listeners_for Click (initializeApp p) v = listeners_for Click ?p5 v"
    using np by (simp add: initializeApp_def Let_def)
  have b: "\<And>v. listeners_for Click ?p5 v = listeners_for Click ?p4 v"
    by (simp add: listeners_for_LuxuryCursor_new)
  have c: "\<And>v. listeners_for Click ?p3 v
             = listeners_for Click (setupMenuButton (setupThemeButton p)) v"
  proof -
    fix v
    show "listeners_for Click ?p3 v
            = listeners_for Click (setupMenuButton (setupThemeButton p)) v"
      by (cases v) (simp_all add: listeners_for_setupMenuButton listeners_for_setupThemeButton)
  qed
  show ?thesis
    unfolding a b by (cases u) (simp_all add: listeners_for_PortfolioApp_init c)
qed

lemma click_listeners_initializeApp:
  "fresh p \<Longrightarrow>
   listeners_for Click (initializeApp p) t =
     (case t of
        Document \<Rightarrow> []
      | ThemeToggle \<Rightarrow> (if has_theme_toggle p then [Setup_theme_click, App_theme_click] else [])
      | HamburgerIcon \<Rightarrow>
          (if icon_open (menu p) \<noteq> None then [Setup_hamburger_click, App_hamburger_click] else [])
      | MenuOverlay \<Rightarrow>
          (if overlay_open (menu p) \<noteq> None then [Setup_overlay_click, App_overlay_click] else [])
      | MenuLinks \<Rightarrow> (if has_menu_links p then [App_menulinks_click] else [])
      | MenuLink i \<Rightarrow> (if i < menu_anchors p then [Setup_link_click] else [])
      | Element k \<Rightarrow> [])"
proof -
  assume f: "fresh p"
  then have e: "\<And>u. listeners_for Click p u = []" and np: "\<not> portfolioApp p"
    by (simp_all add: fresh_def listeners_for_def)
  show ?thesis
    by (cases t)
       (simp_all add: click_listeners_first_run [OF np] listeners_for_setupMenuButton
         listeners_for_setupThemeButton e)
qed

lemma stopper_registered:
  "\<not> portfolioApp p \<Longrightarrow> has_menu_links p \<Longrightarrow>
   App_menulinks_click \<in> set (listeners (initializeApp p) MenuLinks)"
proof -
  assume "\<not> portfolioApp p" "has_menu_links p"
  then have "App_menulinks_click \<in> set (listeners_for Click (initializeApp p) MenuLinks)"
    by (simp add: click_listeners_first_run)
  then show ?thesis by (simp add: listeners_for_def)
qed

section \<open>Clicks in and around the menu\<close>

lemma propagate_step:
  "etype e = ty \<Longrightarrow>
   propagate (n # ns) e p =
     (case run_listeners (listeners_for ty p n) e p of
        (e1, p1) \<Rightarrow> (if propagationStopped e1 then (e1, p1) else propagate ns e1 p1))"
  using run_listeners_filter [of e "listeners p n" p] by (simp add: listeners_for_def)

lemma propagate_skip:
  "\<forall>n\<in>set ns. listeners_for (etype e) p n = [] \<Longrightarrow> \<not> propagationStopped e \<Longrightarrow>
   propagate (ns @ rest) e p = propagate rest e p"
proof (induction ns)
  case Nil
  show ?case by simp
next
  case (Cons n ns)
  then show ?case
    by (simp only: append_Cons propagate_step [OF refl]) simp
qed

lemma link_click_on:
  assumes "listeners_for Click w (MenuLink i) = [Setup_link_click]"
    and "\<forall>n\<in>set mid. listeners_for Click w n = []"
    and "listeners_for Click w MenuLinks = [App_menulinks_click]"
  shows "dispatch Click k (MenuLink i) (mid @ MenuLinks # post) w =
           (\<lparr>etype = Click, target = MenuLink i, key = k, defaultPrevented = False,
             propagationStopped = True\<rparr>,
            w\<lparr>menu := handleMenuLink (menu w)\<rparr>)"
proof -
  let ?e = "\<lparr>etype = Click, target = MenuLink i, key = k, defaultPrevented = False,
             propagationStopped = False\<rparr>"
  let ?w1 = "w\<lparr>menu := handleMenuLink (menu w)\<rparr>"
  have mid: "\<forall>n\<in>set mid. listeners_for (etype ?e) ?w1 n = []"
    using assms(2) by simp
  have 1: "propagate (MenuLink i # mid @ MenuLinks # post) ?e w
             = propagate (mid @ MenuLinks # post) ?e ?w1"
    by (simp add: propagate_step [where ty = Click] assms(1) del: propagate.simps(2))
  have 2: "propagate (mid @ MenuLinks # post) ?e ?w1 = propagate (MenuLinks # post) ?e ?w1"
    by (rule propagate_skip [OF mid]) simp
  have 3: "propagate (MenuLinks # post) ?e ?w1 = (?e\<lparr>propagationStopped := True\<rparr>, ?w1)"
    by (simp add: propagate_step [where ty = Click] assms(3) stopPropagation_def
        del: propagate.simps(2))
  show ?thesis
    unfolding dispatch_def 1 2 3 by simp
qed

lemma inside_overlay_click_on:
  assumes "listeners_for Click w (Element j) = []"
    and "listeners_for Click w MenuOverlay = [Setup_overlay_click, App_overlay_click]"
    and "listeners_for Click w Document = []"
  shows "dispatch Click k (Element j) [MenuOverlay, Document] w =
           (\<lparr>etype = Click, target = Element j, key = k, defaultPrevented = False,
             propagationStopped = False\<rparr>,
            w\<lparr>menu := MenuManager_close (menu w)\<rparr>)"
  by (simp add: dispatch_def propagate_step [where ty = Click] assms del: propagate.simps(2))

lemma fresh_sample_page: "fresh (sample_page y)"
  by (simp add: fresh_def sample_page_def)

lemma sample_page_fields [simp]:
  "has_theme_toggle (sample_page y)" "has_menu_links (sample_page y)"
  "menu_anchors (sample_page y) = 2" "menu (sample_page y) = closed_menu y"
  by (simp_all add: sample_page_def)

lemma closed_menu_fields [simp]:
  "overlay_open (closed_menu y) = Some False" "icon_open (closed_menu y) = Some False"
  "body_top (closed_menu y) = []" "scrollY (closed_menu y) = y"
  by (simp_all add: closed_menu_def)

text \<open>
  Claim C6, as stated, fails in its last part: the backdrop listener that
  \<^verbatim>\<open>PortfolioApp.attachEventListeners\<close> puts on the overlay closes the menu on a click whose
  target is not the overlay. On the sample page, after the initializer has run and the menu
  has been opened, a click on an element that lies inside the overlay and outside the
  menu-links container closes the menu.
\<close>

theorem inside_overlay_click_closes:
  "overlay_open (menu (run [Load, Call_toggleMenu] (sample_page 100))) = Some True
   \<and> overlay_open (menu (run [Load, Call_toggleMenu,
        Fire Click [] (Element 0) [MenuOverlay, Document]] (sample_page 100))) = Some False
   \<and> Element 0 \<noteq> MenuOverlay"
proof -
  let ?w = "(initializeApp (sample_page 100))
              \<lparr>menu := toggleMenu_dom (menu (initializeApp (sample_page 100)))\<rparr>"
  have w: "run [Load, Call_toggleMenu] (sample_page 100) = ?w"
    by (simp add: run_def toggleMenu_def)
  have m: "menu ?w = toggleMenu_dom (closed_menu 100)"
    by (simp add: initializeApp_menu)
  have o: "overlay_open (menu ?w) = Some True"
    unfolding m by (simp add: toggleMenu_dom_def Let_def)
  have c: "dispatch Click [] (Element 0) [MenuOverlay, Document] ?w =
           (\<lparr>etype = Click, target = Element 0, key = [], defaultPrevented = False,
             propagationStopped = False\<rparr>,
            ?w\<lparr>menu := MenuManager_close (menu ?w)\<rparr>)"
    by (rule inside_overlay_click_on)
       (simp_all add: click_listeners_initializeApp [OF fresh_sample_page])
  have "run [Load, Call_toggleMenu, Fire Click [] (Element 0) [MenuOverlay, Document]]
          (sample_page 100) = ?w\<lparr>menu := MenuManager_close (menu ?w)\<rparr>"
    using c by (simp add: run_def toggleMenu_def)
  then show ?thesis
    using o by (simp add: w MenuManager_close_def Let_def scrollTo_def)
qed

lemma step_keeps_listeners: "a \<noteq> Load \<Longrightarrow> listeners (step a p) = listeners p"
proof (cases a)
  case (Fire ty k t ancestors)
  then show ?thesis
    by (simp add: dispatch_def propagate_keeps del: propagate.simps)
qed simp_all

lemma run_keeps_listeners: "Load \<notin> set ops \<Longrightarrow> listeners (run ops p) = listeners p"
proof (induction ops arbitrary: p)
  case Nil
  show ?case by (simp add: run_def)
next
  case (Cons a ops)
  then have "a \<noteq> Load" "Load \<notin> set ops" by auto
  with Cons.IH [of "step a p"] step_keeps_listeners [of a p] show ?case
    by (simp add: run_def)
qed

lemma listeners_for_run:
  "Load \<notin> set ops \<Longrightarrow> listeners_for ty (run ops p) u = listeners_for ty p u"
  by (simp add: listeners_for_def run_keeps_listeners)

lemma MenuManager_close_closes:
  "overlay_open (MenuManager_close m) = map_option (\<lambda>_. False) (overlay_open m)
   \<and> icon_open (MenuManager_close m) = map_option (\<lambda>_. False) (icon_open m)
   \<and> \<not> body_menu_open (MenuManager_close m)
   \<and> body_position (MenuManager_close m) = []
   \<and> body_top (MenuManager_close m) = []"
  by (simp add: MenuManager_close_def Let_def scrollTo_def)

lemma overlay_reached_click_on:
  assumes pre: "\<forall>n\<in>set (t # mid). listeners_for Click w n = []"
    and ov: "listeners_for Click w MenuOverlay = [Setup_overlay_click, App_overlay_click]"
    and post: "\<forall>n\<in>set post. listeners_for Click w n = []"
    and t: "t \<noteq> MenuOverlay"
  shows "dispatch Click k t (mid @ MenuOverlay # post) w =
           (\<lparr>etype = Click, target = t, key = k, defaultPrevented = False,
             propagationStopped = False\<rparr>,
            w\<lparr>menu := MenuManager_close (menu w)\<rparr>)"
proof -
  let ?e = "\<lparr>etype = Click, target = t, key = k, defaultPrevented = False,
             propagationStopped = False\<rparr>"
  let ?w1 = "w\<lparr>menu := MenuManager_close (menu w)\<rparr>"
  have pre': "\<forall>n\<in>set (t # mid). listeners_for (etype ?e) w n = []"
    using pre by simp
  have post': "\<forall>n\<in>set post. listeners_for (etype ?e) ?w1 n = []"
    using post by simp
  have 1: "propagate ((t # mid) @ MenuOverlay # post) ?e w = propagate (MenuOverlay # post) ?e w"
    by (rule propagate_skip [OF pre']) simp
  have 2: "propagate (MenuOverlay # post) ?e w = propagate post ?e ?w1"
    using t by (simp add: propagate_step [where ty = Click] ov del: propagate.simps(2))
  have 3: "propagate (post @ []) ?e ?w1 = propagate [] ?e ?w1"
    by (rule propagate_skip [OF post']) simp
  from 1 2 3 show ?thesis
    by (simp add: dispatch_def del: propagate.simps(2))
qed

lemma overlay_target_click_on:
  assumes "listeners_for Click w MenuOverlay = [Setup_overlay_click, App_overlay_click]"
  shows "dispatch Click k MenuOverlay post w =
           (\<lparr>etype = Click, target = MenuOverlay, key = k, defaultPrevented = True,
             propagationStopped = True\<rparr>,
            w\<lparr>menu := MenuManager_close (toggleMenu_dom (menu w))\<rparr>)"
  by (simp add: dispatch_def propagate_step [where ty = Click] assms
      stop_event_def stopPropagation_def preventDefault_def del: propagate.simps(2))

lemma contained_click_on:
  assumes "App_menulinks_click \<in> set (listeners w MenuLinks)"
  shows "dispatch Click k t (mid @ MenuLinks # post) w = dispatch Click k t (mid @ [MenuLinks]) w"
    and "dispatch Click k MenuLinks post w = dispatch Click k MenuLinks [] w"
  using propagate_contained [OF assms, of _ "t # mid" post]
    propagate_contained [OF assms, of _ "[]" post]
  by (simp_all add: dispatch_def)

lemma App_overlay_click_any_target:
  "run_handler App_overlay_click e q = (e, q\<lparr>menu := MenuManager_close (menu q)\<rparr>)"
  by simp

text \<open>
  Claim C6, amended. Take a page that the initializer has wired and that has a menu-links
  container, at any time afterwards (after any run in which the initializer does not run
  again), so with the menu in any state. A click whose path leads through the container
  goes no further than the container, so no listener of the overlay runs for it. A click on
  a menu anchor runs \<^verbatim>\<open>window.handleMenuLink\<close>, which closes the menu, and the event's
  default action is not prevented. The backdrop listener of \<^verbatim>\<open>setupMenuButton\<close> does nothing
  unless the click target is the overlay itself. The backdrop listener of \<^verbatim>\<open>PortfolioApp\<close>
  calls \<^verbatim>\<open>MenuManager.close\<close> whatever the target of the event is: a click on any element
  inside the overlay, at any depth, reaches the overlay and closes the menu, and a click on
  the overlay itself runs both backdrop listeners, the toggle of \<^verbatim>\<open>setupMenuButton\<close> and then
  this close. After \<^verbatim>\<open>MenuManager.close\<close> and after \<^verbatim>\<open>window.handleMenuLink\<close> the overlay
  does not carry the class \<^verbatim>\<open>open\<close> and the body does not carry \<^verbatim>\<open>menu-open\<close>.
\<close>

theorem menu_click_routing:
  "fresh p \<Longrightarrow> has_menu_links p \<Longrightarrow> Load \<notin> set ops \<Longrightarrow>
   dispatch Click k t (mid @ MenuLinks # post) (run ops (initializeApp p))
     = dispatch Click k t (mid @ [MenuLinks]) (run ops (initializeApp p))
   \<and> dispatch Click k MenuLinks post (run ops (initializeApp p))
     = dispatch Click k MenuLinks [] (run ops (initializeApp p))
   \<and> (i < menu_anchors p \<and> set mid \<subseteq> range Element \<longrightarrow>
        dispatch Click k (MenuLink i) (mid @ MenuLinks # post) (run ops (initializeApp p))
          = (\<lparr>etype = Click, target = MenuLink i, key = k, defaultPrevented = False,
              propagationStopped = True\<rparr>,
             (run ops (initializeApp p))
               \<lparr>menu := handleMenuLink (menu (run ops (initializeApp p)))\<rparr>))
   \<and> (target e \<noteq> MenuOverlay \<longrightarrow> run_handler Setup_overlay_click e q = (e, q))
   \<and> run_handler App_overlay_click e q = (e, q\<lparr>menu := MenuManager_close (menu q)\<rparr>)
   \<and> (overlay_open (menu p) \<noteq> None \<and> set (t # mid) \<subseteq> range Element
        \<and> set post \<subseteq> insert Document (range Element) \<longrightarrow>
        dispatch Click k t (mid @ MenuOverlay # post) (run ops (initializeApp p))
          = (\<lparr>etype = Click, target = t, key = k, defaultPrevented = False,
              propagationStopped = False\<rparr>,
             (run ops (initializeApp p))
               \<lparr>menu := MenuManager_close (menu (run ops (initializeApp p)))\<rparr>))
   \<and> (overlay_open (menu p) \<noteq> None \<longrightarrow>
        dispatch Click k MenuOverlay post (run ops (initializeApp p))
          = (\<lparr>etype = Click, target = MenuOverlay, key = k, defaultPrevented = True,
              propagationStopped = True\<rparr>,
             (run ops (initializeApp p))
               \<lparr>menu := MenuManager_close (toggleMenu_dom (menu (run ops (initializeApp p))))\<rparr>))
   \<and> overlay_open (MenuManager_close m) = map_option (\<lambda>_. False) (overlay_open m)
   \<and> \<not> body_menu_open (MenuManager_close m)
   \<and> overlay_open (handleMenuLink m) = map_option (\<lambda>_. False) (overlay_open m)
   \<and> \<not> body_menu_open (handleMenuLink m)"
proof -
  assume f: "fresh p" and l: "has_menu_links p" and nl: "Load \<notin> set ops"
  let ?w = "run ops (initializeApp p)"
  from f have np: "\<not> portfolioApp p" by (simp add: fresh_def)
  have cl: "\<And>u. listeners_for Click ?w u = listeners_for Click (initializeApp p) u"
    by (rule listeners_for_run [OF nl])
  have stopper: "App_menulinks_click \<in> set (listeners ?w MenuLinks)"
    using stopper_registered [OF np l] by (simp add: run_keeps_listeners [OF nl])
  note tab = click_listeners_initializeApp [OF f]
  have c1: "dispatch Click k t (mid @ MenuLinks # post) ?w
              = dispatch Click k t (mid @ [MenuLinks]) ?w"
    by (rule contained_click_on(1) [OF stopper])
  have c2: "dispatch Click k MenuLinks post ?w = dispatch Click k MenuLinks [] ?w"
    by (rule contained_click_on(2) [OF stopper])
  have c3: "dispatch Click k (MenuLink i) (mid @ MenuLinks # post) ?w
              = (\<lparr>etype = Click, target = MenuLink i, key = k, defaultPrevented = False,
                  propagationStopped = True\<rparr>,
                 ?w\<lparr>menu := handleMenuLink (menu ?w)\<rparr>)"
    if "i < menu_anchors p" "set mid \<subseteq> range Element"
  proof (rule link_click_on)
    show "listeners_for Click ?w (MenuLink i) = [Setup_link_click]"
      using that(1) by (simp add: cl tab)
    show "\<forall>n\<in>set mid. listeners_for Click ?w n = []"
      using that(2) by (auto simp: cl tab)
    show "listeners_for Click ?w MenuLinks = [App_menulinks_click]"
      using l by (simp add: cl tab)
  qed
  have c6: "dispatch Click k t (mid @ MenuOverlay # post) ?w
              = (\<lparr>etype = Click, target = t, key = k, defaultPrevented = False,
                  propagationStopped = False\<rparr>,
                 ?w\<lparr>menu := MenuManager_close (menu ?w)\<rparr>)"
    if "overlay_open (menu p) \<noteq> None" "set (t # mid) \<subseteq> range Element"
      "set post \<subseteq> insert Document (range Element)"
  proof (rule overlay_reached_click_on)
    show "\<forall>n\<in>set (t # mid). listeners_for Click ?w n = []"
      using that(2) by (auto simp: cl tab)
    show "listeners_for Click ?w MenuOverlay = [Setup_overlay_click, App_overlay_click]"
      using that(1) by (simp add: cl tab)
    show "\<forall>n\<in>set post. listeners_for Click ?w n = []"
      using that(3) by (auto simp: cl tab)
    show "t \<noteq> MenuOverlay" using that(2) by auto
  qed
  have c7: "dispatch Click k MenuOverlay post ?w
              = (\<lparr>etype = Click, target = MenuOverlay, key = k, defaultPrevented = True,
                  propagationStopped = True\<rparr>,
                 ?w\<lparr>menu := MenuManager_close (toggleMenu_dom (menu ?w))\<rparr>)"
    if "overlay_open (menu p) \<noteq> None"
    by (rule overlay_target_click_on) (use that in \<open>simp add: cl tab\<close>)
  from c1 c2 c3 c6 c7 MenuManager_close_closes [of m] handleMenuLink_eq [of m]
  show ?thesis by simp
qed


theorem menu_click_routing_witness:
  "fresh (sample_page 100) \<and> has_menu_links (sample_page 100)
   \<and> Load \<notin> set [Call_toggleMenu]
   \<and> 0 < menu_anchors (sample_page 100) \<and> set [Element 7] \<subseteq> range Element
   \<and> overlay_open (menu (sample_page 100)) \<noteq> None
   \<and> set (Element 3 # [Element 4]) \<subseteq> range Element
   \<and> set [Element 9, Document] \<subseteq> insert Document (range Element)
   \<and> target \<lparr>etype = Click, target = Element 3, key = [], defaultPrevented = False,
        propagationStopped = False\<rparr> \<noteq> MenuOverlay
   \<and> run_handler Setup_overlay_click
        \<lparr>etype = Click, target = Element 3, key = [], defaultPrevented = False,
          propagationStopped = False\<rparr> (sample_page 100)
      = (\<lparr>etype = Click, target = Element 3, key = [], defaultPrevented = False,
          propagationStopped = False\<rparr>, sample_page 100)
   \<and> overlay_open (menu (run [Call_toggleMenu] (initializeApp (sample_page 100)))) = Some True
   \<and> body_menu_open (menu (run [Call_toggleMenu] (initializeApp (sample_page 100))))
   \<and> dispatch Click [] (MenuLink 0) ([Element 7] @ MenuLinks # [MenuOverlay, Document])
        (run [Call_toggleMenu] (initializeApp (sample_page 100)))
      = dispatch Click [] (MenuLink 0) ([Element 7] @ [MenuLinks])
        (run [Call_toggleMenu] (initializeApp (sample_page 100)))
   \<and> \<not> defaultPrevented (fst (dispatch Click [] (MenuLink 0)
        ([Element 7] @ MenuLinks # [MenuOverlay, Document])
        (run [Call_toggleMenu] (initializeApp (sample_page 100)))))
   \<and> overlay_open (menu (snd (dispatch Click [] (MenuLink 0)
        ([Element 7] @ MenuLinks # [MenuOverlay, Document])
        (run [Call_toggleMenu] (initializeApp (sample_page 100)))))) = Some False
   \<and> \<not> body_menu_open (menu (snd (dispatch Click [] (MenuLink 0)
        ([Element 7] @ MenuLinks # [MenuOverlay, Document])
        (run [Call_toggleMenu] (initializeApp (sample_page 100))))))
   \<and> overlay_open (menu (snd (dispatch Click [] (Element 3)
        ([Element 4] @ MenuOverlay # [Element 9, Document])
        (run [Call_toggleMenu] (initializeApp (sample_page 100)))))) = Some False
   \<and> \<not> body_menu_open (menu (snd (dispatch Click [] (Element 3)
        ([Element 4] @ MenuOverlay # [Element 9, Document])
        (run [Call_toggleMenu] (initializeApp (sample_page 100))))))
   \<and> overlay_open (menu (snd (dispatch Click [] MenuOverlay [Element 9, Document]
        (run [Call_toggleMenu] (initializeApp (sample_page 100)))))) = Some False"
proof -
  let ?w = "run [Call_toggleMenu] (initializeApp (sample_page 100))"
  let ?e = "\<lparr>etype = Click, target = Element 3, key = [], defaultPrevented = False,
             propagationStopped = False\<rparr>"
  have f: "fresh (sample_page 100)" by (rule fresh_sample_page)
  have l: "has_menu_links (sample_page 100)" by simp
  have nl: "Load \<notin> set [Call_toggleMenu]" by simp
  have h: "0 < menu_anchors (sample_page 100) \<and> set [Element 7] \<subseteq> range Element"
    "overlay_open (menu (sample_page 100)) \<noteq> None"
    "set (Element 3 # [Element 4]) \<subseteq> range Element"
    "set [Element 9, Document] \<subseteq> insert Document (range Element)"
    "target ?e \<noteq> MenuOverlay"
    by simp_all
  have mw: "menu ?w = toggleMenu_dom (closed_menu 100)"
    by (simp add: run_def toggleMenu_def initializeApp_menu)
  have opened: "overlay_open (menu ?w) = Some True" "body_menu_open (menu ?w)"
    unfolding mw by (simp_all add: toggleMenu_dom_def Let_def)
  have after_toggle: "overlay_open (toggleMenu_dom (menu ?w)) = Some False"
    unfolding mw by (simp add: toggleMenu_dom_def Let_def)
  note link = menu_click_routing [where p = "sample_page 100" and ops = "[Call_toggleMenu]"
      and k = "[]" and t = "MenuLink 0" and mid = "[Element 7]"
      and post = "[MenuOverlay, Document]" and i = 0 and e = ?e and q = "sample_page 100"
      and m = "menu ?w", OF f l nl]
  note inside = menu_click_routing [where p = "sample_page 100" and ops = "[Call_toggleMenu]"
      and k = "[]" and t = "Element 3" and mid = "[Element 4]"
      and post = "[Element 9, Document]" and m = "toggleMenu_dom (menu ?w)", OF f l nl]
  from link h have 1:
    "dispatch Click [] (MenuLink 0) ([Element 7] @ MenuLinks # [MenuOverlay, Document]) ?w
       = dispatch Click [] (MenuLink 0) ([Element 7] @ [MenuLinks]) ?w"
    "dispatch Click [] (MenuLink 0) ([Element 7] @ MenuLinks # [MenuOverlay, Document]) ?w
       = (\<lparr>etype = Click, target = MenuLink 0, key = [], defaultPrevented = False,
           propagationStopped = True\<rparr>, ?w\<lparr>menu := handleMenuLink (menu ?w)\<rparr>)"
    "run_handler Setup_overlay_click ?e (sample_page 100) = (?e, sample_page 100)"
    "overlay_open (MenuManager_close (menu ?w)) = map_option (\<lambda>_. False) (overlay_open (menu ?w))"
    "\<not> body_menu_open (MenuManager_close (menu ?w))"
    "overlay_open (handleMenuLink (menu ?w)) = map_option (\<lambda>_. False) (overlay_open (menu ?w))"
    "\<not> body_menu_open (handleMenuLink (menu ?w))"
    by blast+
  from inside h have 2:
    "dispatch Click [] (Element 3) ([Element 4] @ MenuOverlay # [Element 9, Document]) ?w
       = (\<lparr>etype = Click, target = Element 3, key = [], defaultPrevented = False,
           propagationStopped = False\<rparr>, ?w\<lparr>menu := MenuManager_close (menu ?w)\<rparr>)"
    "dispatch Click [] MenuOverlay [Element 9, Document] ?w
       = (\<lparr>etype = Click, target = MenuOverlay, key = [], defaultPrevented = True,
           propagationStopped = True\<rparr>,
          ?w\<lparr>menu := MenuManager_close (toggleMenu_dom (menu ?w))\<rparr>)"
    "overlay_open (MenuManager_close (toggleMenu_dom (menu ?w)))
       = map_option (\<lambda>_. False) (overlay_open (toggleMenu_dom (menu ?w)))"
    by blast+
  have 3: "overlay_open (menu (snd (dispatch Click [] (MenuLink 0)
             ([Element 7] @ MenuLinks # [MenuOverlay, Document]) ?w))) = Some False"
    "\<not> body_menu_open (menu (snd (dispatch Click [] (MenuLink 0)
             ([Element 7] @ MenuLinks # [MenuOverlay, Document]) ?w)))"
    "\<not> defaultPrevented (fst (dispatch Click [] (MenuLink 0)
             ([Element 7] @ MenuLinks # [MenuOverlay, Document]) ?w))"
    unfolding 1(2) using 1(6,7) opened by simp_all
  have 4: "overlay_open (menu (snd (dispatch Click [] (Element 3)
             ([Element 4] @ MenuOverlay # [Element 9, Document]) ?w))) = Some False"
    "\<not> body_menu_open (menu (snd (dispatch Click [] (Element 3)
             ([Element 4] @ MenuOverlay # [Element 9, Document]) ?w)))"
    unfolding 2(1) using 1(4,5) opened by simp_all
  have 5: "overlay_open (menu (snd (dispatch Click [] MenuOverlay [Element 9, Document] ?w)))
             = Some False"
    unfolding 2(2) using 2(3) after_toggle by simp
  from f l nl h 1(1,3) opened 3 4 5 show ?thesis by blast
qed

section \<open>Properties of the reveal functions\<close>

lemma fold_add_animate:
  "animate (fold add_animate xs r) = animate r \<union> set xs
   \<and> observer (fold add_animate xs r) = observer r
   \<and> observed (fold add_animate xs r) = observed r
   \<and> timeouts (fold add_animate xs r) = timeouts r"
  by (induction xs arbitrary: r) (auto simp: add_animate_def)

lemma fold_observe:
  "animate (fold observe xs r) = animate r
   \<and> observed (fold observe xs r) = observed r \<union> set xs"
  by (induction xs arbitrary: r) (auto simp: observe_def)

lemma observer_entry_effect:
  "animate (observer_entry en r) = (if snd en then insert (fst en) (animate r) else animate r)
   \<and> observed (observer_entry en r) = (if snd en then observed r - {fst en} else observed r)"
  by (simp add: observer_entry_def unobserve_def add_animate_def)

lemma observer_callback_mono:
  "animate r \<subseteq> animate (observer_callback entries r)
   \<and> observed (observer_callback entries r) \<subseteq> observed r"
  unfolding observer_callback_def
proof (induction entries arbitrary: r)
  case Nil
  show ?case by simp
next
  case (Cons en entries)
  from Cons [of "observer_entry en r"] observer_entry_effect [of en r]
  show ?case by (auto split: if_splits)
qed

lemma observer_callback_marks:
  "(t, True) \<in> set entries \<Longrightarrow>
   t \<in> animate (observer_callback entries r) \<and> t \<notin> observed (observer_callback entries r)"
proof (induction entries arbitrary: r)
  case Nil
  then show ?case by simp
next
  case (Cons en entries)
  show ?case
  proof (cases "(t, True) \<in> set entries")
    case True
    from Cons.IH [OF True, of "observer_entry en r"] show ?thesis
      by (simp add: observer_callback_def)
  next
    case False
    with Cons.prems have en: "en = (t, True)" by simp
    have "t \<in> animate (observer_entry en r)" "t \<notin> observed (observer_entry en r)"
      by (simp_all add: observer_entry_effect en)
    with observer_callback_mono [of "observer_entry en r" entries]
    show ?thesis by (auto simp: observer_callback_def)
  qed
qed

lemma fold_setTimeout:
  "animate (fold (\<lambda>(index, el). setTimeout (Hero_element el) (index * 100)) xs r) = animate r
   \<and> observed (fold (\<lambda>(index, el). setTimeout (Hero_element el) (index * 100)) xs r) = observed r"
  by (induction xs arbitrary: r) (auto simp: setTimeout_def)

lemma run_timeout_mono:
  "animate r \<subseteq> animate (run_timeout f r) \<and> observed (run_timeout f r) = observed r"
  by (cases f) (auto simp: fold_setTimeout add_animate_def)

lemma fire_timeout_mono:
  "animate r \<subseteq> animate (fire_timeout i r) \<and> observed (fire_timeout i r) = observed r"
  using run_timeout_mono [of "r\<lparr>timeouts := take i (timeouts r) @ drop (Suc i) (timeouts r)\<rparr>"]
  by (simp add: fire_timeout_def)

lemma ScrollAnimationManager_init_mono:
  "animate r \<subseteq> animate (ScrollAnimationManager_init r)"
  by (simp add: ScrollAnimationManager_init_def Let_def fold_add_animate fold_observe setTimeout_def)

lemma dispatch_keeps:
  "listeners (snd (dispatch ty k t ancestors p)) = listeners p"
  "reveal (snd (dispatch ty k t ancestors p)) = reveal p"
  "scrollAnimationManager (snd (dispatch ty k t ancestors p)) = scrollAnimationManager p"
  unfolding dispatch_def by (simp_all only: propagate_keeps)

lemma step_animate: "animate (reveal p) \<subseteq> animate (reveal (step a p))"
proof (cases a)
  case (Fire ty k t ancestors)
  then show ?thesis by (simp add: dispatch_keeps)
next
  case (Intersect entries)
  then show ?thesis using observer_callback_mono [of "reveal p" entries] by simp
next
  case (Timeout i)
  then show ?thesis using fire_timeout_mono [of "reveal p" i] by simp
next
  case Load
  then show ?thesis
    using ScrollAnimationManager_init_mono [of "ScrollAnimationManager_new (reveal p)"]
    by (simp add: initializeApp_reveal ScrollAnimationManager_new_def)
qed simp_all

lemma step_observed:
  "scrollAnimationManager p \<Longrightarrow>
   scrollAnimationManager (step a p) \<and> observed (reveal (step a p)) \<subseteq> observed (reveal p)"
proof (cases a)
  case (Fire ty k t ancestors)
  assume "scrollAnimationManager p"
  with Fire show ?thesis by (simp add: dispatch_keeps)
next
  case (Intersect entries)
  assume "scrollAnimationManager p"
  with Intersect show ?thesis using observer_callback_mono [of "reveal p" entries] by simp
next
  case (Timeout i)
  assume "scrollAnimationManager p"
  with Timeout show ?thesis using fire_timeout_mono [of "reveal p" i] by simp
next
  case Load
  assume "scrollAnimationManager p"
  with Load show ?thesis by (simp add: initializeApp_reveal initializeApp_flags)
qed simp_all

lemma run_animate: "animate (reveal p) \<subseteq> animate (reveal (run ops p))"
proof (induction ops arbitrary: p)
  case Nil
  show ?case by (simp add: run_def)
next
  case (Cons a ops)
  from step_animate [of p a] Cons [of "step a p"] show ?case
    by (auto simp: run_def)
qed

lemma run_observed:
  "scrollAnimationManager p \<Longrightarrow> observed (reveal (run ops p)) \<subseteq> observed (reveal p)"
proof (induction ops arbitrary: p)
  case Nil
  show ?case by (simp add: run_def)
next
  case (Cons a ops)
  from step_observed [OF Cons.prems, of a] Cons.IH [of "step a p"] show ?case
    by (auto simp: run_def)
qed

lemma ScrollAnimationManager_init_supported:
  "has_IntersectionObserver r \<Longrightarrow>
   observer (ScrollAnimationManager_init r)
   \<and> animate (ScrollAnimationManager_init r) = animate r
   \<and> observed (ScrollAnimationManager_init r) = observed r \<union> set (scroll_animate r)"
  by (simp add: ScrollAnimationManager_init_def Let_def fold_observe setTimeout_def
      fold_keeps [where g = observer and f = observe] observe_def)

lemma sample_page_reveal:
  "reveal (initializeApp (sample_page y)) =
     ScrollAnimationManager_init (ScrollAnimationManager_new (reveal (sample_page y)))"
  by (simp add: initializeApp_reveal sample_page_def)

lemma sample_page_reveal_fields:
  "observer (reveal (initializeApp (sample_page y)))"
  "animate (reveal (initializeApp (sample_page y))) = {}"
  "observed (reveal (initializeApp (sample_page y))) = {0, 1, 2}"
  unfolding sample_page_reveal
  by (simp_all add: ScrollAnimationManager_init_supported ScrollAnimationManager_new_def
      sample_page_def)


text \<open>
  Claim C8. Whatever happens to the page, an element that carries the class \<^verbatim>\<open>animate\<close>
  keeps it. When the observer's callback receives an intersecting entry for an element, the
  element carries the class and is no longer observed right after the callback, it still
  carries the class after any further run of the system (entries that report it as no
  longer intersecting included), and on a page whose scroll-animation manager is set up it
  is never observed again.
\<close>

theorem reveal_is_monotonic:
  "animate (reveal p) \<subseteq> animate (reveal (run ops p))
   \<and> (observer (reveal p) \<and> (t, True) \<in> set entries \<longrightarrow>
        t \<in> animate (reveal (step (Intersect entries) p))
        \<and> t \<notin> observed (reveal (step (Intersect entries) p))
        \<and> t \<in> animate (reveal (run ops (step (Intersect entries) p)))
        \<and> (scrollAnimationManager p \<longrightarrow>
             t \<notin> observed (reveal (run ops (step (Intersect entries) p)))))"
proof -
  let ?q = "step (Intersect entries) p"
  {
    assume o: "observer (reveal p)" and e: "(t, True) \<in> set entries"
    from observer_callback_marks [OF e, of "reveal p"] o
    have m: "t \<in> animate (reveal ?q)" "t \<notin> observed (reveal ?q)" by simp_all
    from m(1) run_animate [of ?q ops] have a: "t \<in> animate (reveal (run ops ?q))" by auto
    {
      assume "scrollAnimationManager p"
      then have "scrollAnimationManager ?q" by (simp add: step_observed)
      from run_observed [OF this, of ops] m(2) have "t \<notin> observed (reveal (run ops ?q))" by auto
    }
    with m a have "t \<in> animate (reveal ?q) \<and> t \<notin> observed (reveal ?q)
        \<and> t \<in> animate (reveal (run ops ?q))
        \<and> (scrollAnimationManager p \<longrightarrow> t \<notin> observed (reveal (run ops ?q)))"
      by blast
  }
  with run_animate [of p ops] show ?thesis by blast
qed


theorem reveal_is_monotonic_witness:
  "observer (reveal (initializeApp (sample_page 0)))
   \<and> (1, True) \<in> set [(1::nat, True)]
   \<and> scrollAnimationManager (initializeApp (sample_page 0))
   \<and> 1 \<notin> animate (reveal (initializeApp (sample_page 0)))
   \<and> 1 \<in> observed (reveal (initializeApp (sample_page 0)))
   \<and> 1 \<in> animate (reveal (step (Intersect [(1, True)]) (initializeApp (sample_page 0))))
   \<and> 1 \<notin> observed (reveal (step (Intersect [(1, True)]) (initializeApp (sample_page 0))))
   \<and> 1 \<in> animate (reveal (run [Intersect [(1, False)], Scroll 50, Load]
              (step (Intersect [(1, True)]) (initializeApp (sample_page 0)))))
   \<and> 1 \<notin> observed (reveal (run [Intersect [(1, False)], Scroll 50, Load]
              (step (Intersect [(1, True)]) (initializeApp (sample_page 0)))))"
proof -
  have h: "observer (reveal (initializeApp (sample_page 0)))"
    "(1, True) \<in> set [(1::nat, True)]"
    "scrollAnimationManager (initializeApp (sample_page 0))"
    by (simp_all add: sample_page_reveal_fields initializeApp_flags)
  have b: "1 \<notin> animate (reveal (initializeApp (sample_page 0)))"
    "1 \<in> observed (reveal (initializeApp (sample_page 0)))"
    by (simp_all add: sample_page_reveal_fields)
  from reveal_is_monotonic [where p = "initializeApp (sample_page 0)" and t = 1
      and entries = "[(1, True)]" and ops = "[Intersect [(1, False)], Scroll 50, Load]"] h b
  show ?thesis by blast
qed

text \<open>
  Claim C9. When the browser has no \<^verbatim>\<open>IntersectionObserver\<close>, \<^verbatim>\<open>init\<close> on a new manager
  returns with every element of class \<^verbatim>\<open>scroll-animate\<close> carrying the class \<^verbatim>\<open>animate\<close>, the
  manager holds no observer, no element has been put under observation and no timeout has
  been scheduled.
\<close>

theorem unsupported_observer_fallback:
  "\<not> has_IntersectionObserver r \<Longrightarrow>
   animate (ScrollAnimationManager_init (ScrollAnimationManager_new r)) = animate r \<union> set (scroll_animate r)
   \<and> \<not> observer (ScrollAnimationManager_init (ScrollAnimationManager_new r))
   \<and> observed (ScrollAnimationManager_init (ScrollAnimationManager_new r)) = observed r
   \<and> timeouts (ScrollAnimationManager_init (ScrollAnimationManager_new r)) = timeouts r"
proof -
  assume unsupported: "\<not> has_IntersectionObserver r"
  let ?m = "ScrollAnimationManager_new r"
  have fallback: "ScrollAnimationManager_init ?m = fold add_animate (scroll_animate r) ?m"
    using unsupported by (simp add: ScrollAnimationManager_init_def ScrollAnimationManager_new_def)
  have new: "animate ?m = animate r" "\<not> observer ?m" "observed ?m = observed r"
    "timeouts ?m = timeouts r"
    by (simp_all add: ScrollAnimationManager_new_def)
  from fold_add_animate [of "scroll_animate r" ?m] new show ?thesis
    unfolding fallback by simp
qed

theorem unsupported_observer_fallback_witness:
  "\<not> has_IntersectionObserver
       \<lparr>scroll_animate = [0, 1, 2], hero_elements = [0], animate = {},
        has_IntersectionObserver = False, observer = False, observed = {}, timeouts = []\<rparr>
   \<and> animate (ScrollAnimationManager_init (ScrollAnimationManager_new
        \<lparr>scroll_animate = [0, 1, 2], hero_elements = [0], animate = {},
         has_IntersectionObserver = False, observer = False, observed = {}, timeouts = []\<rparr>))
      = {0, 1, 2}
   \<and> \<not> observer (ScrollAnimationManager_init (ScrollAnimationManager_new
        \<lparr>scroll_animate = [0, 1, 2], hero_elements = [0], animate = {},
         has_IntersectionObserver = False, observer = False, observed = {}, timeouts = []\<rparr>))
   \<and> observed (ScrollAnimationManager_init (ScrollAnimationManager_new
        \<lparr>scroll_animate = [0, 1, 2], hero_elements = [0], animate = {},
         has_IntersectionObserver = False, observer = False, observed = {}, timeouts = []\<rparr>))
      = {}
   \<and> timeouts (ScrollAnimationManager_init (ScrollAnimationManager_new
        \<lparr>scroll_animate = [0, 1, 2], hero_elements = [0], animate = {},
         has_IntersectionObserver = False, observer = False, observed = {}, timeouts = []\<rparr>))
      = []"
  using unsupported_observer_fallback [of
      "\<lparr>scroll_animate = [0, 1, 2], hero_elements = [0], animate = {},
        has_IntersectionObserver = False, observer = False, observed = {}, timeouts = []\<rparr>"]
  by simp

section \<open>Running the initializer twice\<close>

lemma initializeApp_fields [simp]:
  "has_theme_toggle (initializeApp p) = has_theme_toggle p"
  "has_menu_links (initializeApp p) = has_menu_links p"
  "menu_anchors (initializeApp p) = menu_anchors p"
  by (simp_all add: initializeApp_def Let_def)

lemma second_run_click_listeners:
  assumes "fresh p"
  shows "listeners_for Click (initializeApp (initializeApp p)) u =
     (case u of
        ThemeToggle \<Rightarrow> (if has_theme_toggle p then [Setup_theme_click] else [])
      | HamburgerIcon \<Rightarrow>
          (if icon_open (menu p) \<noteq> None
           then [Setup_hamburger_click, App_hamburger_click, Setup_hamburger_click] else [])
      | MenuOverlay \<Rightarrow>
          (if overlay_open (menu p) \<noteq> None
           then [Setup_overlay_click, App_overlay_click, Setup_overlay_click] else [])
      | MenuLinks \<Rightarrow> (if has_menu_links p then [App_menulinks_click] else [])
      | MenuLink i \<Rightarrow> (if i < menu_anchors p then [Setup_link_click, Setup_link_click] else [])
      | _ \<Rightarrow> [])"
proof -
  let ?w = "initializeApp p"
  have "initializeApp ?w = setupMenuButton (setupThemeButton (?w\<lparr>theme := initializeTheme (theme ?w)\<rparr>))"
    by (rule initializeApp_again) (rule initializeApp_flags)+
  then show ?thesis
    by (cases u)
       (simp_all add: listeners_for_setupMenuButton listeners_for_setupThemeButton
         click_listeners_initializeApp [OF assms] initializeApp_menu)
qed

lemma keydown_listeners_initializeApp:
  "listeners_for Keydown (initializeApp p) Document
     = listeners_for Keydown p Document @ [Setup_keydown]"
proof -
  have a: "\<And>q. listeners_for Keydown (setupThemeButton q) Document = listeners_for Keydown q Document"
    by (simp add: listeners_for_setupThemeButton)
  have b: "\<And>q. listeners_for Keydown (setupMenuButton q) Document
             = listeners_for Keydown q Document @ [Setup_keydown]"
    by (simp add: setupMenuButton_def Let_def listeners_for_fold_links
        listeners_for_addEventListener)
  have c: "\<And>q. listeners_for Keydown (PortfolioApp_init q) Document = listeners_for Keydown q Document"
    by (simp add: PortfolioApp_init_def attachEventListeners_def Let_def
        listeners_for_addEventListener)
  have d: "\<And>q. listeners_for Keydown (LuxuryCursor_new q) Document = listeners_for Keydown q Document"
    by (simp add: LuxuryCursor_new_def LuxuryCursor_init_def Let_def
        listeners_for_addEventListener listeners_for_fold_hover)
  show ?thesis
    by (simp add: initializeApp_def Let_def a b c d)
qed

text \<open>
  Claim C10 at an input where the code departs from it. On the sample page the initializer
  runs twice. The second run registers the click listeners of \<^verbatim>\<open>setupMenuButton\<close> a second
  time on the hamburger icon, on the overlay and on each menu anchor, and its key listener a
  second time on the document; on the theme button, replaced by a clone, only the listener
  of \<^verbatim>\<open>setupThemeButton\<close> is left.
\<close>

theorem second_initializeApp_registers_again:
  "listeners_for Click (initializeApp (sample_page 0)) HamburgerIcon
     = [Setup_hamburger_click, App_hamburger_click]
   \<and> listeners_for Click (initializeApp (initializeApp (sample_page 0))) HamburgerIcon
     = [Setup_hamburger_click, App_hamburger_click, Setup_hamburger_click]
   \<and> listeners_for Click (initializeApp (sample_page 0)) MenuOverlay
     = [Setup_overlay_click, App_overlay_click]
   \<and> listeners_for Click (initializeApp (initializeApp (sample_page 0))) MenuOverlay
     = [Setup_overlay_click, App_overlay_click, Setup_overlay_click]
   \<and> listeners_for Click (initializeApp (sample_page 0)) (MenuLink 0) = [Setup_link_click]
   \<and> listeners_for Click (initializeApp (initializeApp (sample_page 0))) (MenuLink 0)
     = [Setup_link_click, Setup_link_click]
   \<and> listeners_for Click (initializeApp (sample_page 0)) ThemeToggle
     = [Setup_theme_click, App_theme_click]
   \<and> listeners_for Click (initializeApp (initializeApp (sample_page 0))) ThemeToggle
     = [Setup_theme_click]
   \<and> listeners_for Keydown (initializeApp (sample_page 0)) Document = [Setup_keydown]
   \<and> listeners_for Keydown (initializeApp (initializeApp (sample_page 0))) Document
     = [Setup_keydown, Setup_keydown]"
proof -
  have empty: "listeners_for Keydown (sample_page 0) Document = []"
    by (simp add: listeners_for_def sample_page_def)
  show ?thesis
    by (simp add: second_run_click_listeners [OF fresh_sample_page]
        click_listeners_initializeApp [OF fresh_sample_page]
        keydown_listeners_initializeApp empty)
qed

end
